theory Spec2Isabelle
  imports Main "HOL-Library.Word" "HOL-Library.Multiset" "HOL-Library.AList"
begin

section \<open>Python values and exceptions\<close>

text \<open>
  Exceptions are values. \<open>NotFound\<close> is the cloud SDK's not-found class
  (\<open>google.api_core.exceptions.NotFound\<close>, which \<open>google.cloud.exceptions.NotFound\<close>
  aliases); \<open>OtherError\<close> stands for every exception class the code never names
  (any other service error, any other \<open>OSError\<close>, a YAML syntax error, ...).
  \<open>SystemExit\<close> is what \<open>argparse\<close> raises to end the process.
\<close>

datatype error =
    NotFound string
  | FileNotFoundError string
  | FileExistsError string
  | NotADirectoryError string
  | IsADirectoryError string
  | NameError string
  | AttributeError string
  | TypeError string
  | ValueError string
  | SystemExit int
  | OtherError string

text \<open>
  What \<open>yaml.load(f, Loader=yaml.SafeLoader)\<close> returns: nested mappings, sequences and
  scalars. A mapping is an association list in insertion order, as a Python \<open>dict\<close> is;
  keys are strings.
\<close>

datatype pyval =
    VNone
  | VBool bool
  | VInt int
  | VStr string
  | VList "pyval list"
  | VDict "(string \<times> pyval) list"

text \<open>Python truthiness (\<open>x if x else y\<close>, \<open>if x:\<close>).\<close>

fun truthy :: "pyval \<Rightarrow> bool" where
  "truthy VNone = False"
| "truthy (VBool b) = b"
| "truthy (VInt i) = (i \<noteq> 0)"
| "truthy (VStr s) = (s \<noteq> [])"
| "truthy (VList xs) = (xs \<noteq> [])"
| "truthy (VDict d) = (d \<noteq> [])"

text \<open>\<open>isinstance(v, dict)\<close>.\<close>

fun isinstance_dict :: "pyval \<Rightarrow> bool" where
  "isinstance_dict (VDict d) = True"
| "isinstance_dict v = False"

section \<open>Config resolver: \<open>_deep_merge\<close>\<close>

text \<open>
  \<^verbatim>\<open>
  def _deep_merge(dict1, dict2):
      result = dict1.copy()
      for key, value in dict2.items():
          if key in result and isinstance(result[key], dict) and isinstance(value, dict):
              result[key] = deep_merge(result[key], value)
          else:
              result[key] = value
      return result
  \<close>
  Python names cannot start an Isabelle identifier with an underscore, so the private
  functions \<open>_deep_merge\<close>, \<open>_get_env\<close> and \<open>_get_config_dict\<close> carry the prefix
  \<open>priv\<close>.

  The module defines \<open>_deep_merge\<close> only. The name \<open>deep_merge\<close> that the recursive
  branch calls is bound nowhere (not in the module, not in the builtins), so evaluating
  that call raises \<open>NameError\<close> before any argument is looked at.

  \<open>merge_loop\<close> is the \<open>for\<close> loop, with \<open>result\<close> as the accumulator:
  \<open>result[key] = value\<close> replaces the value of a present key in place and appends a
  new key, which is \<open>AList.update\<close>. The test \<open>isinstance(v, dict)\<close> is the
  parameter \<open>isdict\<close>, so that the loop can be read on values (here) and on
  references into a store (below).
\<close>

fun merge_loop ::
  "('v \<Rightarrow> bool) \<Rightarrow> (string \<times> 'v) list \<Rightarrow> (string \<times> 'v) list \<Rightarrow> error + (string \<times> 'v) list" where
  "merge_loop isdict result [] = Inr result"
| "merge_loop isdict result ((key, val) # rest) =
     (case map_of result key of
        Some old \<Rightarrow>
          if isdict old \<and> isdict val
          then Inl (NameError ''deep_merge'')
          else merge_loop isdict (AList.update key val result) rest
      | None \<Rightarrow> merge_loop isdict (AList.update key val result) rest)"

text \<open>
  The function is untyped. Called with mappings it runs the loop. Called with anything
  else it fails where Python fails: \<open>dict1.copy()\<close> exists for a \<open>dict\<close> and a
  \<open>list\<close> only, \<open>dict2.items()\<close> for a \<open>dict\<close> only, and a \<open>result\<close> that is the
  copy of a list takes no string key (it is returned as it is when \<open>dict2\<close> is empty and
  the loop body never runs).
\<close>

definition priv_deep_merge :: "pyval \<Rightarrow> pyval \<Rightarrow> error + pyval" where
  "priv_deep_merge dict1 dict2 =
     (case dict1 of
        VDict d1 \<Rightarrow>
          (case dict2 of
             VDict d2 \<Rightarrow>
               (case merge_loop isinstance_dict d1 d2 of Inl e \<Rightarrow> Inl e | Inr result \<Rightarrow> Inr (VDict result))
           | _ \<Rightarrow> Inl (AttributeError ''items''))
      | VList xs \<Rightarrow>
          (case dict2 of
             VDict d2 \<Rightarrow>
               (if d2 = [] then Inr (VList xs)
                else Inl (TypeError ''list indices must be integers or slices, not str''))
           | _ \<Rightarrow> Inl (AttributeError ''items''))
      | _ \<Rightarrow> Inl (AttributeError ''copy''))"

subsection \<open>\<open>_deep_merge\<close> on a store of objects\<close>

text \<open>
  Whether the merge mutates its arguments, and what the result shares with them, is a
  question about object identity. Here a mapping is an object in a store, values refer
  to objects by address, \<open>dict1.copy()\<close> allocates one new object holding the same
  values (a shallow copy), and \<open>result[key] = value\<close> overwrites the object at the
  address of \<open>result\<close>. The store is a list; an address is an index; allocation appends.
\<close>

datatype hval = HNone | HBool bool | HInt int | HStr string | HRef nat

datatype hobj = ODict "(string \<times> hval) list" | OList "hval list"

type_synonym heap = "hobj list"

definition isinstance_dict_h :: "heap \<Rightarrow> hval \<Rightarrow> bool" where
  "isinstance_dict_h h v =
     (case v of
        HRef p \<Rightarrow> p < length h \<and> (case h ! p of ODict d \<Rightarrow> True | OList xs \<Rightarrow> False)
      | _ \<Rightarrow> False)"

text \<open>
  The loop, on the store: \<open>r\<close> is the address of \<open>result\<close>. A \<open>result\<close> that is a
  list (the copy of a list) cannot be indexed or assigned by a string key: \<open>TypeError\<close>.
  The store is returned with the exception too, so that what a failing call leaves
  behind is visible.
\<close>

fun merge_loop_h :: "heap \<Rightarrow> nat \<Rightarrow> (string \<times> hval) list \<Rightarrow> heap \<times> error option" where
  "merge_loop_h h r [] = (h, None)"
| "merge_loop_h h r ((key, val) # rest) =
     (case h ! r of
        ODict result \<Rightarrow>
          (case map_of result key of
             Some old \<Rightarrow>
               if isinstance_dict_h h old \<and> isinstance_dict_h h val
               then (h, Some (NameError ''deep_merge''))
               else merge_loop_h (h[r := ODict (AList.update key val result)]) r rest
           | None \<Rightarrow> merge_loop_h (h[r := ODict (AList.update key val result)]) r rest)
      | OList xs \<Rightarrow> (h, Some (TypeError ''list indices must be integers or slices, not str'')))"

definition deep_merge_h :: "heap \<Rightarrow> nat \<Rightarrow> nat \<Rightarrow> heap \<times> (error + nat)" where
  "deep_merge_h h dict1 dict2 =
     (let r = length h;
          h1 = h @ [h ! dict1]
      in case h ! dict2 of
           ODict items \<Rightarrow>
             (case merge_loop_h h1 r items of
                (h2, None) \<Rightarrow> (h2, Inr r)
              | (h2, Some e) \<Rightarrow> (h2, Inl e))
         | OList xs \<Rightarrow> (h1, Inl (AttributeError ''items'')))"

section \<open>Config resolver: environment and documents\<close>

text \<open>String tests \<open>s.startswith(t)\<close> and \<open>s.endswith(t)\<close>.\<close>

definition startswith :: "string \<Rightarrow> string \<Rightarrow> bool" where
  "startswith s t = (take (length t) s = t)"

definition endswith :: "string \<Rightarrow> string \<Rightarrow> bool" where
  "endswith s t = (length t \<le> length s \<and> drop (length s - length t) s = t)"

text \<open>
  \<open>os.path.join(a, b)\<close> of \<open>posixpath\<close>: an absolute \<open>b\<close> replaces \<open>a\<close>; otherwise
  \<open>b\<close> is appended, after a separator unless \<open>a\<close> is empty or ends in one.
\<close>

definition os_path_join :: "string \<Rightarrow> string \<Rightarrow> string" where
  "os_path_join a b =
     (if startswith b ''/'' then b
      else if a = [] \<or> endswith a ''/'' then a @ b
      else a @ ''/'' @ b)"

text \<open>
  What the command line says about \<open>-e\<close>/\<open>--environment\<close>, as \<open>argparse\<close> reads it:
  the option does not occur, or it occurs with a value (the last one, if it occurs more
  than once), or \<open>argparse\<close> rejects the command line (the option without its value,
  \<open>-h\<close>) and ends the process with an exit code. Tokenising the command line is the
  library's work and is not modelled.
\<close>

datatype cli_flag = FlagAbsent | FlagGiven string | FlagRejected int

text \<open>
  The process the package is imported in: \<open>CONFIG_LOCATION\<close> (a directory derived
  from \<open>__file__\<close>), the text files that exist, by path, the YAML parser, the
  environment variables and the command line.
\<close>

record process =
  config_location :: string
  files :: "string \<rightharpoonup> string"
  yaml_load :: "string \<Rightarrow> error + pyval"
  environ :: "string \<rightharpoonup> string"
  cli_environment :: cli_flag

text \<open>
  \<^verbatim>\<open>
  def _get_config_dict(env: str) -> dict:
      with open(os.path.join(CONFIG_LOCATION, "{}.yml".format(env))) as f:
          configmap = yaml.load(f, Loader=yaml.SafeLoader)
      return configmap if configmap else {}
  \<close>
  \<open>open\<close> is called with no test that the file exists: a path with no file raises
  \<open>FileNotFoundError\<close>.
\<close>

definition config_path :: "process \<Rightarrow> string \<Rightarrow> string" where
  "config_path P env = os_path_join (config_location P) (env @ ''.yml'')"

definition priv_get_config_dict :: "process \<Rightarrow> string \<Rightarrow> error + pyval" where
  "priv_get_config_dict P env =
     (case files P (config_path P env) of
        None \<Rightarrow> Inl (FileNotFoundError (config_path P env))
      | Some f \<Rightarrow>
          (case yaml_load P f of
             Inl e \<Rightarrow> Inl e
           | Inr configmap \<Rightarrow> Inr (if truthy configmap then configmap else VDict [])))"

text \<open>
  \<^verbatim>\<open>
  def _get_env() -> str:
      parser = ArgumentParser()
      parser.add_argument("-e", "--environment",
                          default=os.environ.get("ENVIRONMENT", "local"), help="environment")
      args, _ = parser.parse_known_args()
      return args.environment
  \<close>
\<close>

definition priv_get_env :: "process \<Rightarrow> error + string" where
  "priv_get_env P =
     (let default = (case environ P ''ENVIRONMENT'' of Some v \<Rightarrow> v | None \<Rightarrow> ''local'')
      in case cli_environment P of
           FlagGiven v \<Rightarrow> Inr v
         | FlagAbsent \<Rightarrow> Inr default
         | FlagRejected code \<Rightarrow> Inl (SystemExit code))"

text \<open>
  The module's last two statements, run at import; the arguments of \<open>_deep_merge\<close> are
  evaluated left to right.
  \<^verbatim>\<open>
  environment = _get_env()
  config = _deep_merge(_get_config_dict("default"), _get_config_dict(environment))
  \<close>
\<close>

definition config :: "process \<Rightarrow> error + pyval" where
  "config P =
     (case priv_get_env P of
        Inl e \<Rightarrow> Inl e
      | Inr environment \<Rightarrow>
          (case priv_get_config_dict P ''default'' of
             Inl e \<Rightarrow> Inl e
           | Inr dict1 \<Rightarrow>
               (case priv_get_config_dict P environment of
                  Inl e \<Rightarrow> Inl e
                | Inr dict2 \<Rightarrow> priv_deep_merge dict1 dict2)))"

section \<open>POSIX path functions\<close>

text \<open>
  The storage connector computes local paths with \<open>os.path.relpath\<close>, \<open>os.path.join\<close>
  and \<open>os.path.dirname\<close>. These are the \<open>posixpath\<close> functions, written out after
  the library's code; \<open>cwd\<close> is \<open>os.getcwd()\<close>.
\<close>

text \<open>\<open>s.split('/')\<close> and \<open>'/'.join(comps)\<close>.\<close>

fun split_sep :: "string \<Rightarrow> string list" where
  "split_sep [] = [[]]"
| "split_sep (c # cs) =
     (if c = CHR ''/'' then [] # split_sep cs
      else (case split_sep cs of [] \<Rightarrow> [[c]] | w # ws \<Rightarrow> (c # w) # ws))"

fun join_sep :: "string list \<Rightarrow> string" where
  "join_sep [] = []"
| "join_sep [w] = w"
| "join_sep (w # ws) = w @ ''/'' @ join_sep ws"

text \<open>
  One round of the loop of \<open>normpath\<close>: empty components and \<open>.\<close> are dropped; \<open>..\<close>
  removes the component before it, is dropped at the root of an absolute path, and is
  kept at the start of a relative one.
\<close>

definition norm_step :: "bool \<Rightarrow> string list \<Rightarrow> string \<Rightarrow> string list" where
  "norm_step initial_slashes new_comps part =
     (if part = [] \<or> part = ''.'' then new_comps
      else if part \<noteq> ''..'' \<or> (\<not> initial_slashes \<and> new_comps = [])
              \<or> (new_comps \<noteq> [] \<and> last new_comps = ''..'')
           then new_comps @ [part]
      else if new_comps \<noteq> [] then butlast new_comps
      else new_comps)"

definition os_path_normpath :: "string \<Rightarrow> string" where
  "os_path_normpath path =
     (if path = [] then ''.''
      else
        let initial_slashes =
              (if startswith path ''/''
               then (if startswith path ''//'' \<and> \<not> startswith path ''///'' then 2 else 1)
               else (0::nat));
            comps = foldl (norm_step (initial_slashes \<noteq> 0)) [] (split_sep path);
            path' = replicate initial_slashes CHR ''/'' @ join_sep comps
        in if path' = [] then ''.'' else path')"

definition os_path_abspath :: "string \<Rightarrow> string \<Rightarrow> string" where
  "os_path_abspath cwd path =
     os_path_normpath (if startswith path ''/'' then path else os_path_join cwd path)"

text \<open>Length of the longest common prefix of two component lists (\<open>commonprefix\<close>).\<close>

fun commonprefix_len :: "string list \<Rightarrow> string list \<Rightarrow> nat" where
  "commonprefix_len (x # xs) (y # ys) = (if x = y then Suc (commonprefix_len xs ys) else 0)"
| "commonprefix_len xs ys = 0"

text \<open>
  \<^verbatim>\<open>
  def relpath(path, start):
      if not path: raise ValueError("no path specified")
      start_list = [x for x in abspath(start).split(sep) if x]
      path_list = [x for x in abspath(path).split(sep) if x]
      i = len(commonprefix([start_list, path_list]))
      rel_list = [pardir] * (len(start_list)-i) + path_list[i:]
      if not rel_list: return curdir
      return join(*rel_list)
  \<close>
\<close>

definition os_path_relpath :: "string \<Rightarrow> string \<Rightarrow> string \<Rightarrow> error + string" where
  "os_path_relpath cwd path start =
     (if path = [] then Inl (ValueError ''no path specified'')
      else
        let start_list = filter (\<lambda>x. x \<noteq> []) (split_sep (os_path_abspath cwd start));
            path_list = filter (\<lambda>x. x \<noteq> []) (split_sep (os_path_abspath cwd path));
            i = commonprefix_len start_list path_list;
            rel_list = replicate (length start_list - i) ''..'' @ drop i path_list
        in case rel_list of
             [] \<Rightarrow> Inr ''.''
           | a # p \<Rightarrow> Inr (foldl os_path_join a p))"

text \<open>
  \<^verbatim>\<open>
  def dirname(p):
      i = p.rfind('/') + 1
      head = p[:i]
      if head and head != '/'*len(head): head = head.rstrip('/')
      return head
  \<close>
\<close>

definition os_path_dirname :: "string \<Rightarrow> string" where
  "os_path_dirname p =
     (let head = rev (dropWhile (\<lambda>c. c \<noteq> CHR ''/'') (rev p))
      in if head \<noteq> [] \<and> head \<noteq> replicate (length head) CHR ''/''
         then rev (dropWhile (\<lambda>c. c = CHR ''/'') (rev head))
         else head)"

section \<open>Object-store connector\<close>

subsection \<open>The storage service, the local file system and the SDK\<close>

text \<open>
  The connector talks to two things outside the program: the object store, through the
  client SDK, and the local file system. Both are state the functions pass along.
  \<^item> \<open>objects\<close>: the stored objects, content by (bucket, name), in the order the
    service lists them;
  \<^item> \<open>public_objects\<close>: the objects that have been made publicly readable;
  \<^item> \<open>local_files\<close>: the regular files of the local file system, content by location;
  \<^item> \<open>local_dirs\<close>: the directories of the local file system, by location;
  \<^item> \<open>cwd\<close>: the working directory, an absolute path;
  \<^item> \<open>public_url\<close>: the URL the SDK computes for (bucket, name);
  \<^item> \<open>faults\<close>: for each call to the service or to the operating system, the
    exception it raises for a reason the state above does not hold (network, permissions,
    a full disk, ...), if any.

  A location is the list of names that leads from the root directory to a file or a
  directory; the root is the empty list. Two path strings that lead to one place, such
  as \<open>out/x\<close> and \<open>out/../out/x\<close>, are one location. The file system has no symbolic
  or hard links and compares names exactly, and the working directory exists.
\<close>

type_synonym bytes = "8 word list"

type_synonym location = "string list"

datatype call =
    ListBlobs string "string option"
  | DownloadAsBytes string string
  | UploadFromFilename string string string
  | MakePublic string string
  | Makedirs string
  | OpenWrite string

record world =
  objects :: "((string \<times> string) \<times> bytes) list"
  public_objects :: "(string \<times> string) set"
  local_files :: "location \<rightharpoonup> bytes"
  local_dirs :: "location set"
  cwd :: string
  public_url :: "string \<Rightarrow> string \<Rightarrow> string"
  faults :: "call \<Rightarrow> error option"

subsection \<open>How the operating system resolves a path\<close>

text \<open>
  The system walks a path component by component, from the root for an absolute path
  and from the working directory otherwise: an empty component and \<open>.\<close> stay where
  they are, \<open>..\<close> goes to the parent (the root is its own parent), a name goes into
  the entry of that name. \<open>walk_to\<close> is the location reached; \<open>walk_dirs\<close> lists, in
  order, the locations entered by name on the way.
\<close>

definition walk_start :: "string \<Rightarrow> string \<Rightarrow> location" where
  "walk_start wd p =
     (if startswith p ''/'' then [] else filter (\<lambda>x. x \<noteq> []) (split_sep wd))"

fun walk_to :: "location \<Rightarrow> string list \<Rightarrow> location" where
  "walk_to cur [] = cur"
| "walk_to cur (c # cs) =
     (if c = [] \<or> c = ''.'' then walk_to cur cs
      else if c = ''..'' then walk_to (butlast cur) cs
      else walk_to (cur @ [c]) cs)"

fun walk_dirs :: "location \<Rightarrow> string list \<Rightarrow> location list" where
  "walk_dirs cur [] = []"
| "walk_dirs cur (c # cs) =
     (if c = [] \<or> c = ''.'' then walk_dirs cur cs
      else if c = ''..'' then walk_dirs (butlast cur) cs
      else (cur @ [c]) # walk_dirs (cur @ [c]) cs)"

text \<open>
  The components of a path without the empty ones that trailing separators leave; its
  last component (\<open>.\<close> for a path of separators only, which is the root); the
  directories to pass through before the last component; the location the path names.
\<close>

definition path_names :: "string \<Rightarrow> string list" where
  "path_names p = rev (dropWhile (\<lambda>c. c = []) (rev (split_sep p)))"

definition last_name :: "string \<Rightarrow> string" where
  "last_name p = (case rev (path_names p) of [] \<Rightarrow> ''.'' | n # rinit \<Rightarrow> n)"

definition parent_dirs :: "string \<Rightarrow> string \<Rightarrow> location list" where
  "parent_dirs wd p = walk_dirs (walk_start wd p) (butlast (path_names p))"

definition file_location :: "string \<Rightarrow> string \<Rightarrow> location" where
  "file_location wd p = walk_to (walk_start wd p) (butlast (path_names p)) @ [last_name p]"

text \<open>
  Passing through the directories of a path fails at the first one that is not a
  directory: \<open>NotADirectoryError\<close> if a regular file is there, \<open>FileNotFoundError\<close>
  if nothing is.
\<close>

definition enter_parents :: "world \<Rightarrow> string \<Rightarrow> error option" where
  "enter_parents W p =
     (case find (\<lambda>k. k \<notin> local_dirs W) (parent_dirs (cwd W) p) of
        None \<Rightarrow> None
      | Some k \<Rightarrow>
          Some (if local_files W k \<noteq> None then NotADirectoryError p else FileNotFoundError p))"

text \<open>
  \<open>open(p, "wb")\<close> followed by \<open>f.write(content)\<close>. The empty path names nothing. A
  path that ends in a separator, in \<open>.\<close> or in \<open>..\<close>, or that names a directory, cannot
  be opened for writing. Otherwise the file at the location is created or replaced.
\<close>

definition write_file :: "world \<Rightarrow> string \<Rightarrow> bytes \<Rightarrow> error + world" where
  "write_file W p content =
     (case faults W (OpenWrite p) of
        Some e \<Rightarrow> Inl e
      | None \<Rightarrow>
          if p = [] then Inl (FileNotFoundError p)
          else
            (case enter_parents W p of
               Some e \<Rightarrow> Inl e
             | None \<Rightarrow>
                 if endswith p ''/'' \<or> last_name p = ''.'' \<or> last_name p = ''..''
                    \<or> file_location (cwd W) p \<in> local_dirs W
                 then Inl (IsADirectoryError p)
                 else Inr (W\<lparr>local_files := (local_files W)(file_location (cwd W) p \<mapsto> content)\<rparr>)))"

text \<open>\<open>open(p, "rb")\<close> followed by \<open>f.read()\<close>.\<close>

definition read_file :: "world \<Rightarrow> string \<Rightarrow> error + bytes" where
  "read_file W p =
     (if p = [] then Inl (FileNotFoundError p)
      else
        (case enter_parents W p of
           Some e \<Rightarrow> Inl e
         | None \<Rightarrow>
             if last_name p = ''.'' \<or> last_name p = ''..''
                \<or> file_location (cwd W) p \<in> local_dirs W
             then Inl (IsADirectoryError p)
             else
               (case local_files W (file_location (cwd W) p) of
                  None \<Rightarrow> Inl (FileNotFoundError p)
                | Some content \<Rightarrow>
                    if endswith p ''/'' then Inl (NotADirectoryError p) else Inr content)))"

text \<open>
  \<open>os.makedirs(d, exist_ok=True)\<close> makes every directory on the path \<open>d\<close> that is not
  there yet, in the order of the path. It stops where a regular file is in the way, with
  \<open>FileExistsError\<close> if that file is what the whole path names and with
  \<open>NotADirectoryError\<close> otherwise; the directories made before that stay. The empty
  path raises \<open>FileNotFoundError\<close>. \<open>makedirs_walk\<close> gives the directories the call
  has made sure of and the exception, if any.
\<close>

fun makedirs_walk ::
  "string \<Rightarrow> (location \<rightharpoonup> bytes) \<Rightarrow> location \<Rightarrow> string list \<Rightarrow> location list \<times> error option" where
  "makedirs_walk d fs cur [] = ([], None)"
| "makedirs_walk d fs cur (c # cs) =
     (if c = [] \<or> c = ''.'' then makedirs_walk d fs cur cs
      else if c = ''..'' then makedirs_walk d fs (butlast cur) cs
      else if fs (cur @ [c]) \<noteq> None
      then ([], Some (if \<forall>c'\<in>set cs. c' = [] then FileExistsError d else NotADirectoryError d))
      else (case makedirs_walk d fs (cur @ [c]) cs of (ds, r) \<Rightarrow> ((cur @ [c]) # ds, r)))"

definition os_makedirs :: "world \<Rightarrow> string \<Rightarrow> (error + unit) \<times> world" where
  "os_makedirs W d =
     (case faults W (Makedirs d) of
        Some e \<Rightarrow> (Inl e, W)
      | None \<Rightarrow>
          if d = [] then (Inl (FileNotFoundError d), W)
          else
            (case makedirs_walk d (local_files W) (walk_start (cwd W) d) (split_sep d) of
               (ds, r) \<Rightarrow>
                 (case r of None \<Rightarrow> Inr () | Some e \<Rightarrow> Inl e,
                  W\<lparr>local_dirs := local_dirs W \<union> set ds\<rparr>)))"

subsection \<open>The SDK's calls\<close>

text \<open>\<open>client.list_blobs(bucket_name, prefix=prefix)\<close>, names only.\<close>

definition sdk_list_blobs :: "world \<Rightarrow> string \<Rightarrow> string option \<Rightarrow> error + string list" where
  "sdk_list_blobs W bucket_name prefix =
     (case faults W (ListBlobs bucket_name prefix) of
        Some e \<Rightarrow> Inl e
      | None \<Rightarrow>
          Inr (map (\<lambda>((b, name), c). name)
                 (filter (\<lambda>((b, name), c). b = bucket_name \<and>
                            (case prefix of None \<Rightarrow> True | Some p \<Rightarrow> startswith name p))
                    (objects W))))"

text \<open>\<open>client.bucket(bucket_name).blob(blob_name).download_as_bytes()\<close>.\<close>

definition sdk_download_as_bytes :: "world \<Rightarrow> string \<Rightarrow> string \<Rightarrow> error + bytes" where
  "sdk_download_as_bytes W bucket_name blob_name =
     (case faults W (DownloadAsBytes bucket_name blob_name) of
        Some e \<Rightarrow> Inl e
      | None \<Rightarrow>
          (case map_of (objects W) (bucket_name, blob_name) of
             None \<Rightarrow> Inl (NotFound (''No such object: '' @ bucket_name @ ''/'' @ blob_name))
           | Some content \<Rightarrow> Inr content))"

text \<open>
  \<open>blob.upload_from_filename(file_path)\<close>: opens and reads the local file, then sends
  its bytes, which become the content of the object.
\<close>

definition sdk_upload_from_filename ::
  "world \<Rightarrow> string \<Rightarrow> string \<Rightarrow> string \<Rightarrow> error + world" where
  "sdk_upload_from_filename W bucket_name blob_name file_path =
     (case read_file W file_path of
        Inl e \<Rightarrow> Inl e
      | Inr content \<Rightarrow>
          (case faults W (UploadFromFilename bucket_name blob_name file_path) of
             Some e \<Rightarrow> Inl e
           | None \<Rightarrow>
               Inr (W\<lparr>objects := AList.update (bucket_name, blob_name) content (objects W)\<rparr>)))"

text \<open>\<open>blob.make_public()\<close>.\<close>

definition sdk_make_public :: "world \<Rightarrow> string \<Rightarrow> string \<Rightarrow> error + world" where
  "sdk_make_public W bucket_name blob_name =
     (case faults W (MakePublic bucket_name blob_name) of
        Some e \<Rightarrow> Inl e
      | None \<Rightarrow>
          (case map_of (objects W) (bucket_name, blob_name) of
             None \<Rightarrow> Inl (NotFound (''No such object: '' @ bucket_name @ ''/'' @ blob_name))
           | Some content \<Rightarrow>
               Inr (W\<lparr>public_objects := insert (bucket_name, blob_name) (public_objects W)\<rparr>)))"

subsection \<open>\<open>GoogleStorageConnector\<close>\<close>

text \<open>
  Every method logs, runs its body in \<open>try\<close>, and on \<open>except Exception\<close> logs and
  re-raises with a bare \<open>raise\<close>; logging has no effect on the results below.
  \<^verbatim>\<open>
  def download_blob(self, bucket_name, blob_name) -> bytes:
      try:
          bucket = self.client.bucket(bucket_name)
          blob = bucket.blob(blob_name)
          content = blob.download_as_bytes()
          return content
      except NotFound:
          raise FileNotFoundError(f"Blob {blob_name} not found in bucket {bucket_name}")
      except Exception as e:
          raise
  \<close>
\<close>

definition download_blob :: "world \<Rightarrow> string \<Rightarrow> string \<Rightarrow> error + bytes" where
  "download_blob W bucket_name blob_name =
     (case sdk_download_as_bytes W bucket_name blob_name of
        Inr content \<Rightarrow> Inr content
      | Inl (NotFound m) \<Rightarrow>
          Inl (FileNotFoundError (''Blob '' @ blob_name @ '' not found in bucket '' @ bucket_name))
      | Inl e \<Rightarrow> Inl e)"

text \<open>
  \<^verbatim>\<open>
  def upload_blob(self, bucket_name, blob_name, file_path, is_public=False):
      try:
          bucket = self.client.bucket(bucket_name)
          blob = bucket.blob(blob_name)
          blob.upload_from_filename(file_path)
          if is_public:
              blob.make_public()
          return blob.public_url
      except Exception as e:
          raise
  \<close>
  The result carries the state too: a call that raises after the upload has still
  uploaded.
\<close>

definition upload_blob ::
  "world \<Rightarrow> string \<Rightarrow> string \<Rightarrow> string \<Rightarrow> bool \<Rightarrow> (error + string) \<times> world" where
  "upload_blob W bucket_name blob_name file_path is_public =
     (case sdk_upload_from_filename W bucket_name blob_name file_path of
        Inl e \<Rightarrow> (Inl e, W)
      | Inr W1 \<Rightarrow>
          if is_public
          then (case sdk_make_public W1 bucket_name blob_name of
                  Inl e \<Rightarrow> (Inl e, W1)
                | Inr W2 \<Rightarrow> (Inr (public_url W2 bucket_name blob_name), W2))
          else (Inr (public_url W1 bucket_name blob_name), W1))"

text \<open>
  \<^verbatim>\<open>
  def list_blobs(self, bucket_name, prefix=None) -> List[str]:
      try:
          blobs = [blob.name for blob in self.client.list_blobs(bucket_name, prefix=prefix)]
          return blobs
      except Exception as e:
          raise
  \<close>
\<close>

definition list_blobs :: "world \<Rightarrow> string \<Rightarrow> string option \<Rightarrow> error + string list" where
  "list_blobs W bucket_name prefix = sdk_list_blobs W bucket_name prefix"

text \<open>
  \<^verbatim>\<open>
  def download_folder(self, bucket_name, gcs_folder, local_folder) -> None:
      try:
          blobs = self.list_blobs(bucket_name, prefix=gcs_folder)
          for blob_name in blobs:
              if blob_name.endswith("/"):
                  continue
              relative_path = os.path.relpath(blob_name, gcs_folder)
              local_file_path = os.path.join(local_folder, relative_path)
              os.makedirs(os.path.dirname(local_file_path), exist_ok=True)
              content = self.download_blob(bucket_name, blob_name)
              with open(local_file_path, "wb") as f:
                  f.write(content)
      except Exception as e:
          raise
  \<close>
  \<open>local_path\<close> is the second and third line of the loop body; \<open>download_loop\<close> is the
  loop, which stops at the first exception with the directories made and the files
  written so far.
\<close>

definition local_path :: "world \<Rightarrow> string \<Rightarrow> string \<Rightarrow> string \<Rightarrow> error + string" where
  "local_path W gcs_folder local_folder blob_name =
     (case os_path_relpath (cwd W) blob_name gcs_folder of
        Inl e \<Rightarrow> Inl e
      | Inr relative_path \<Rightarrow> Inr (os_path_join local_folder relative_path))"

fun download_loop ::
  "world \<Rightarrow> string \<Rightarrow> string \<Rightarrow> string \<Rightarrow> string list \<Rightarrow> (error + unit) \<times> world" where
  "download_loop W bucket_name gcs_folder local_folder [] = (Inr (), W)"
| "download_loop W bucket_name gcs_folder local_folder (blob_name # blobs) =
     (if endswith blob_name ''/''
      then download_loop W bucket_name gcs_folder local_folder blobs
      else
        case local_path W gcs_folder local_folder blob_name of
          Inl e \<Rightarrow> (Inl e, W)
        | Inr local_file_path \<Rightarrow>
            (case os_makedirs W (os_path_dirname local_file_path) of
               (Inl e, W1) \<Rightarrow> (Inl e, W1)
             | (Inr u, W1) \<Rightarrow>
                 (case download_blob W1 bucket_name blob_name of
                    Inl e \<Rightarrow> (Inl e, W1)
                  | Inr content \<Rightarrow>
                      (case write_file W1 local_file_path content of
                         Inl e \<Rightarrow> (Inl e, W1)
                       | Inr W2 \<Rightarrow>
                           download_loop W2 bucket_name gcs_folder local_folder blobs))))"

definition download_folder ::
  "world \<Rightarrow> string \<Rightarrow> string \<Rightarrow> string \<Rightarrow> (error + unit) \<times> world" where
  "download_folder W bucket_name gcs_folder local_folder =
     (case list_blobs W bucket_name (Some gcs_folder) of
        Inl e \<Rightarrow> (Inl e, W)
      | Inr blobs \<Rightarrow> download_loop W bucket_name gcs_folder local_folder blobs)"

subsection \<open>Asynchronous methods\<close>

text \<open>
  \<open>await asyncio.to_thread(f, args)\<close> runs \<open>f(args)\<close> on a worker thread and gives
  its result or its exception to the awaiting coroutine. \<open>upload_blob_async\<close> awaits
  the call and returns nothing.
\<close>

definition download_blob_async :: "world \<Rightarrow> string \<Rightarrow> string \<Rightarrow> error + bytes" where
  "download_blob_async W bucket_name blob_name = download_blob W bucket_name blob_name"

definition upload_blob_async ::
  "world \<Rightarrow> string \<Rightarrow> string \<Rightarrow> string \<Rightarrow> bool \<Rightarrow> (error + unit) \<times> world" where
  "upload_blob_async W bucket_name blob_name file_path is_public =
     (case upload_blob W bucket_name blob_name file_path is_public of
        (Inl e, W') \<Rightarrow> (Inl e, W')
      | (Inr url, W') \<Rightarrow> (Inr (), W'))"

definition list_blobs_async :: "world \<Rightarrow> string \<Rightarrow> string option \<Rightarrow> error + string list" where
  "list_blobs_async W bucket_name prefix = list_blobs W bucket_name prefix"

text \<open>
  \<^verbatim>\<open>
  async def _download_and_save(self, bucket_name, blob_name, local_file_path) -> None:
      content = await self.download_blob_async(bucket_name, blob_name)
      with open(local_file_path, "wb") as f:
          f.write(content)
  \<close>
\<close>

definition priv_download_and_save ::
  "world \<Rightarrow> string \<Rightarrow> string \<Rightarrow> string \<Rightarrow> (error + unit) \<times> world" where
  "priv_download_and_save W bucket_name blob_name local_file_path =
     (case download_blob_async W bucket_name blob_name of
        Inl e \<Rightarrow> (Inl e, W)
      | Inr content \<Rightarrow>
          (case write_file W local_file_path content of
             Inl e \<Rightarrow> (Inl e, W)
           | Inr W' \<Rightarrow> (Inr (), W')))"

text \<open>
  \<^verbatim>\<open>
  async def download_folder_async(self, bucket_name, gcs_folder, local_folder) -> None:
      try:
          blobs = await self.list_blobs_async(bucket_name, prefix=gcs_folder)
          download_tasks = []
          for blob_name in blobs:
              if blob_name.endswith("/"):
                  continue
              relative_path = os.path.relpath(blob_name, gcs_folder)
              local_file_path = os.path.join(local_folder, relative_path)
              os.makedirs(os.path.dirname(local_file_path), exist_ok=True)
              task = self._download_and_save(bucket_name, blob_name, local_file_path)
              download_tasks.append(task)
          await asyncio.gather(*download_tasks)
      except Exception as e:
          raise
  \<close>
  The loop makes the directories and collects one coroutine per blob, none of them
  started; a task is the pair of arguments (blob name, local path) of its coroutine.

  \<open>asyncio.gather\<close> then runs the coroutines concurrently. Each awaits its download
  on a worker thread and, resumed on the event loop, opens and writes its file with no
  suspension in between: the writes happen one after another, in the order in which the
  downloads complete. That order is the parameter \<open>completion\<close>, a rearrangement of the
  task list; the source fixes none. The first exception a task raises is propagated to
  the caller of \<open>gather\<close> at once.
\<close>

fun prepare_tasks ::
  "world \<Rightarrow> string \<Rightarrow> string \<Rightarrow> string list \<Rightarrow> (error + (string \<times> string) list) \<times> world" where
  "prepare_tasks W gcs_folder local_folder [] = (Inr [], W)"
| "prepare_tasks W gcs_folder local_folder (blob_name # blobs) =
     (if endswith blob_name ''/''
      then prepare_tasks W gcs_folder local_folder blobs
      else
        case local_path W gcs_folder local_folder blob_name of
          Inl e \<Rightarrow> (Inl e, W)
        | Inr local_file_path \<Rightarrow>
            (case os_makedirs W (os_path_dirname local_file_path) of
               (Inl e, W1) \<Rightarrow> (Inl e, W1)
             | (Inr u, W1) \<Rightarrow>
                 (case prepare_tasks W1 gcs_folder local_folder blobs of
                    (Inl e, W2) \<Rightarrow> (Inl e, W2)
                  | (Inr download_tasks, W2) \<Rightarrow>
                      (Inr ((blob_name, local_file_path) # download_tasks), W2))))"

fun gather :: "world \<Rightarrow> string \<Rightarrow> (string \<times> string) list \<Rightarrow> (error + unit) \<times> world" where
  "gather W bucket_name [] = (Inr (), W)"
| "gather W bucket_name ((blob_name, local_file_path) # tasks) =
     (case priv_download_and_save W bucket_name blob_name local_file_path of
        (Inl e, W') \<Rightarrow> (Inl e, W')
      | (Inr u, W') \<Rightarrow> gather W' bucket_name tasks)"

definition download_folder_async ::
  "((string \<times> string) list \<Rightarrow> (string \<times> string) list) \<Rightarrow>
   world \<Rightarrow> string \<Rightarrow> string \<Rightarrow> string \<Rightarrow> (error + unit) \<times> world" where
  "download_folder_async completion W bucket_name gcs_folder local_folder =
     (case list_blobs_async W bucket_name (Some gcs_folder) of
        Inl e \<Rightarrow> (Inl e, W)
      | Inr blobs \<Rightarrow>
          (case prepare_tasks W gcs_folder local_folder blobs of
             (Inl e, W1) \<Rightarrow> (Inl e, W1)
           | (Inr download_tasks, W1) \<Rightarrow> gather W1 bucket_name (completion download_tasks)))"

subsection \<open>What a download task does, for the proofs\<close>

text \<open>
  A task (blob name, local path) goes through, where the directories are \<open>ds\<close>, when
  the blob downloads and the path opens for writing: no fault, a path that names a
  file, whose directories are all there, at a location that is no directory. It then
  maps that location to the downloaded bytes. Neither depends on the local files already
  written.
\<close>

definition task_ok :: "world \<Rightarrow> location set \<Rightarrow> string \<Rightarrow> string \<times> string \<Rightarrow> bool" where
  "task_ok W ds bucket_name t =
     ((\<exists>content. download_blob W bucket_name (fst t) = Inr content) \<and>
      faults W (OpenWrite (snd t)) = None \<and>
      snd t \<noteq> [] \<and> \<not> endswith (snd t) ''/'' \<and> last_name (snd t) \<noteq> ''.'' \<and> last_name (snd t) \<noteq> ''..'' \<and>
      set (parent_dirs (cwd W) (snd t)) \<subseteq> ds \<and>
      file_location (cwd W) (snd t) \<notin> ds)"

definition task_write ::
  "world \<Rightarrow> string \<Rightarrow> string \<times> string \<Rightarrow> (location \<rightharpoonup> bytes) \<Rightarrow> (location \<rightharpoonup> bytes)" where
  "task_write W bucket_name t fs =
     (case download_blob W bucket_name (fst t) of
        Inr content \<Rightarrow> fs(file_location (cwd W) (snd t) \<mapsto> content)
      | Inl e \<Rightarrow> fs)"

text \<open>
  The directories that \<open>os.makedirs(d, exist_ok=True)\<close> makes sure of when no file is
  in the way, and those it makes sure of for the paths of a list of tasks.
\<close>

definition makedirs_dirs :: "string \<Rightarrow> string \<Rightarrow> location list" where
  "makedirs_dirs wd d = walk_dirs (walk_start wd d) (split_sep d)"

definition task_dirs :: "world \<Rightarrow> (string \<times> string) list \<Rightarrow> location set" where
  "task_dirs W ts = (\<Union>t\<in>set ts. set (makedirs_dirs (cwd W) (os_path_dirname (snd t))))"

section \<open>Warehouse connector\<close>

text \<open>
  The warehouse is a black box: the connector's results depend on its answers only, so
  the client is the record of these answers, one function per call of the SDK.
  \<^item> \<open>bq_query q ps\<close>: \<open>client.query(q, job_config=QueryJobConfig(query_parameters=ps))\<close>
    followed by \<open>query_job.to_dataframe()\<close>;
  \<^item> \<open>bq_get_table d t\<close>: \<open>client.get_table(client.dataset(d).table(t))\<close>;
  \<^item> \<open>bq_create_table d t schema\<close>: \<open>client.create_table(bigquery.Table(ref, schema=schema))\<close>;
  \<^item> \<open>bq_load d t df w\<close>: \<open>client.load_table_from_dataframe(df, ref, job_config=...)\<close>
    with write disposition \<open>w\<close>, followed by \<open>job.result()\<close>.
\<close>

type_synonym dataframe = "pyval list list"

record bigquery_client =
  bq_query :: "string \<Rightarrow> pyval \<Rightarrow> error + dataframe"
  bq_get_table :: "string \<Rightarrow> string \<Rightarrow> error + unit"
  bq_create_table :: "string \<Rightarrow> string \<Rightarrow> (string \<times> string) list \<Rightarrow> error + unit"
  bq_load :: "string \<Rightarrow> string \<Rightarrow> dataframe \<Rightarrow> string \<Rightarrow> error + unit"

text \<open>
  \<^verbatim>\<open>
  def execute_query(self, query, params=None) -> pd.DataFrame:
      try:
          job_config = bigquery.QueryJobConfig(query_parameters=params or [])
          query_job = self.client.query(query, job_config=job_config)
          result = query_job.to_dataframe()
          return result
      except Exception as e:
          raise
  \<close>
\<close>

definition execute_query :: "bigquery_client \<Rightarrow> string \<Rightarrow> pyval \<Rightarrow> error + dataframe" where
  "execute_query C query params = bq_query C query (if truthy params then params else VList [])"

text \<open>\<open>str(n)\<close> of a Python \<open>int\<close>: decimal digits, a minus sign for a negative number.\<close>

fun str_nat :: "nat \<Rightarrow> string" where
  "str_nat n =
     (if n < 10 then [char_of (48 + n)]
      else str_nat (n div 10) @ [char_of (48 + n mod 10)])"

definition str_int :: "int \<Rightarrow> string" where
  "str_int i = (if i < 0 then ''-'' @ str_nat (nat (- i)) else str_nat (nat i))"

text \<open>
  \<^verbatim>\<open>
  def get_table_data(self, dataset_id, table_id, limit=None) -> pd.DataFrame:
      try:
          query = f"SELECT * FROM `{dataset_id}.{table_id}`"
          if limit:
              query += f" LIMIT {limit}"
          return self.execute_query(query)
      except Exception as e:
          raise
  \<close>
  \<open>limit\<close> is \<open>Optional[int]\<close>; \<open>if limit:\<close> is false for \<open>None\<close> and for \<open>0\<close>.
\<close>

definition get_table_data ::
  "bigquery_client \<Rightarrow> string \<Rightarrow> string \<Rightarrow> int option \<Rightarrow> error + dataframe" where
  "get_table_data C dataset_id table_id limit =
     (let query = ''SELECT * FROM '' @ [CHR 0x60] @ dataset_id @ ''.'' @ table_id @ [CHR 0x60];
          query = (case limit of
                     None \<Rightarrow> query
                   | Some n \<Rightarrow> if n \<noteq> 0 then query @ '' LIMIT '' @ str_int n else query)
      in execute_query C query VNone)"

text \<open>
  \<^verbatim>\<open>
  def table_exists(self, dataset_id, table_id) -> bool:
      try:
          table_ref = self.client.dataset(dataset_id).table(table_id)
          self.client.get_table(table_ref)
          return True
      except NotFound:
          return False
      except Exception as e:
          raise
  \<close>
\<close>

definition table_exists :: "bigquery_client \<Rightarrow> string \<Rightarrow> string \<Rightarrow> error + bool" where
  "table_exists C dataset_id table_id =
     (case bq_get_table C dataset_id table_id of
        Inr u \<Rightarrow> Inr True
      | Inl (NotFound m) \<Rightarrow> Inr False
      | Inl e \<Rightarrow> Inl e)"

text \<open>
  \<open>create_table\<close> and \<open>upload_dataframe\<close> make one request each inside
  \<open>try\<close> ... \<open>except Exception: raise\<close> and return \<open>None\<close>.
\<close>

definition create_table ::
  "bigquery_client \<Rightarrow> string \<Rightarrow> string \<Rightarrow> (string \<times> string) list \<Rightarrow> error + unit" where
  "create_table C dataset_id table_id schema = bq_create_table C dataset_id table_id schema"

definition upload_dataframe ::
  "bigquery_client \<Rightarrow> string \<Rightarrow> string \<Rightarrow> dataframe \<Rightarrow> string \<Rightarrow> error + unit" where
  "upload_dataframe C dataset_id table_id dataframe write_disposition =
     bq_load C dataset_id table_id dataframe write_disposition"

text \<open>The asynchronous methods: \<open>await asyncio.to_thread\<close> of the synchronous one.\<close>

definition execute_query_async :: "bigquery_client \<Rightarrow> string \<Rightarrow> pyval \<Rightarrow> error + dataframe" where
  "execute_query_async C query params = execute_query C query params"

definition get_table_data_async ::
  "bigquery_client \<Rightarrow> string \<Rightarrow> string \<Rightarrow> int option \<Rightarrow> error + dataframe" where
  "get_table_data_async C dataset_id table_id limit = get_table_data C dataset_id table_id limit"

definition table_exists_async :: "bigquery_client \<Rightarrow> string \<Rightarrow> string \<Rightarrow> error + bool" where
  "table_exists_async C dataset_id table_id = table_exists C dataset_id table_id"

definition create_table_async ::
  "bigquery_client \<Rightarrow> string \<Rightarrow> string \<Rightarrow> (string \<times> string) list \<Rightarrow> error + unit" where
  "create_table_async C dataset_id table_id schema = create_table C dataset_id table_id schema"

definition upload_dataframe_async ::
  "bigquery_client \<Rightarrow> string \<Rightarrow> string \<Rightarrow> dataframe \<Rightarrow> string \<Rightarrow> error + unit" where
  "upload_dataframe_async C dataset_id table_id dataframe write_disposition =
     upload_dataframe C dataset_id table_id dataframe write_disposition"

section \<open>HTTP application\<close>

text \<open>
  \<^verbatim>\<open>
  class UnicornException(Exception):
      def __init__(self, name: str):
          self.name = name

  @app.exception_handler(UnicornException)
  async def unicorn_exception_handler(request: Request, exc: UnicornException):
      return JSONResponse(
          status_code=418,
          content={"message": f"Oops! {exc.name} did something. There goes a raibow..."},
      )
  \<close>
  A response is its status code and its JSON content. What a route handler does with a
  request is to return a response or to raise; the application answers a raised
  \<open>UnicornException\<close> with the registered handler, and any other exception with the
  framework's 500 response.
\<close>

datatype json = JString string | JObject "(string \<times> json) list"

record response =
  status_code :: nat
  content :: json

datatype unicorn_exception = UnicornException (name: string)

datatype exn = Unicorn unicorn_exception | OtherException string

definition unicorn_exception_handler :: "'request \<Rightarrow> unicorn_exception \<Rightarrow> response" where
  "unicorn_exception_handler request exc =
     \<lparr>status_code = 418,
      content = JObject [(''message'',
        JString (''Oops! '' @ name exc @ '' did something. There goes a raibow...''))]\<rparr>"

definition app :: "('request \<Rightarrow> exn + response) \<Rightarrow> 'request \<Rightarrow> response" where
  "app handler request =
     (case handler request of
        Inr r \<Rightarrow> r
      | Inl (Unicorn exc) \<Rightarrow> unicorn_exception_handler request exc
      | Inl (OtherException m) \<Rightarrow>
          \<lparr>status_code = 500, content = JString ''Internal Server Error''\<rparr>)"

section \<open>Example inputs\<close>

text \<open>
  A process whose configuration directory holds \<open>default.yml\<close> and an empty
  \<open>local.yml\<close>, and no other document; \<open>demo_yaml\<close> parses these two texts.
\<close>

definition demo_yaml :: "string \<Rightarrow> error + pyval" where
  "demo_yaml s =
     (if s = [] then Inr VNone
      else if s = ''api_config: {port: 8080}''
      then Inr (VDict [(''api_config'', VDict [(''port'', VInt 8080)])])
      else Inl (OtherError ''yaml''))"

definition demo_process :: process where
  "demo_process =
     \<lparr>config_location = ''/app/my_bot_name/resources/config'',
      files = [''/app/my_bot_name/resources/config/default.yml'' \<mapsto> ''api_config: {port: 8080}'',
               ''/app/my_bot_name/resources/config/local.yml'' \<mapsto> []],
      yaml_load = demo_yaml,
      environ = Map.empty,
      cli_environment = FlagAbsent\<rparr>"

text \<open>
  A bucket \<open>bkt\<close> with the objects \<open>a/1.txt\<close>, \<open>a/2.txt\<close> and the folder marker
  \<open>a/sub/\<close>, one local file \<open>up.bin\<close> in the working directory \<open>/home/bot\<close>, and
  no fault.
\<close>

definition demo_world :: world where
  "demo_world =
     \<lparr>objects = [((''bkt'', ''a/1.txt''), [1, 2, 3]), ((''bkt'', ''a/2.txt''), [4, 5]),
                 ((''bkt'', ''a/sub/''), [])],
      public_objects = {},
      local_files = [[''home'', ''bot'', ''up.bin''] \<mapsto> [9, 9]],
      local_dirs = {[], [''home''], [''home'', ''bot'']},
      cwd = ''/home/bot'',
      public_url = (\<lambda>b n. ''https://storage.googleapis.com/'' @ b @ ''/'' @ n),
      faults = (\<lambda>c. None)\<rparr>"

text \<open>
  A bucket whose objects \<open>a//x\<close> and \<open>a/x\<close> are two names that \<open>relpath\<close> sends to
  the same relative path \<open>x\<close>.
\<close>

definition clash_world :: world where
  "clash_world =
     \<lparr>objects = [((''bkt'', ''a//x''), [1]), ((''bkt'', ''a/x''), [2])],
      public_objects = {},
      local_files = Map.empty,
      local_dirs = {[], [''home''], [''home'', ''bot'']},
      cwd = ''/home/bot'',
      public_url = (\<lambda>b n. ''https://storage.googleapis.com/'' @ b @ ''/'' @ n),
      faults = (\<lambda>c. None)\<rparr>"

text \<open>
  A bucket whose objects \<open>o/x\<close> and \<open>out/x\<close> are both listed under the prefix
  \<open>o\<close>: downloaded to the folder \<open>out\<close>, they get the paths \<open>out/x\<close> and
  \<open>out/../out/x\<close>, two strings that name one file.
\<close>

definition alias_world :: world where
  "alias_world =
     \<lparr>objects = [((''bkt'', ''o/x''), [1]), ((''bkt'', ''out/x''), [2])],
      public_objects = {},
      local_files = Map.empty,
      local_dirs = {[], [''home''], [''home'', ''bot'']},
      cwd = ''/home/bot'',
      public_url = (\<lambda>b n. ''https://storage.googleapis.com/'' @ b @ ''/'' @ n),
      faults = (\<lambda>c. None)\<rparr>"

text \<open>
  A bucket with an object below a pseudo-folder: \<open>a/1.txt\<close>, the marker \<open>a/sub/\<close>
  and \<open>a/sub/3.txt\<close>.
\<close>

definition nested_world :: world where
  "nested_world =
     \<lparr>objects = [((''bkt'', ''a/1.txt''), [1, 2, 3]), ((''bkt'', ''a/sub/''), []),
                 ((''bkt'', ''a/sub/3.txt''), [6])],
      public_objects = {},
      local_files = Map.empty,
      local_dirs = {[], [''home''], [''home'', ''bot'']},
      cwd = ''/home/bot'',
      public_url = (\<lambda>b n. ''https://storage.googleapis.com/'' @ b @ ''/'' @ n),
      faults = (\<lambda>c. None)\<rparr>"

text \<open>
  A warehouse where table \<open>users\<close> exists, table \<open>locked\<close> is forbidden and no other
  table is found.
\<close>

definition demo_client :: bigquery_client where
  "demo_client =
     \<lparr>bq_query = (\<lambda>q ps. Inr [[VStr q]]),
      bq_get_table = (\<lambda>d t. if t = ''users'' then Inr ()
                             else if t = ''locked'' then Inl (OtherError ''403 Forbidden'')
                             else Inl (NotFound ''404 Not found'')),
      bq_create_table = (\<lambda>d t sch. if t = ''users'' then Inl (OtherError ''409 Already Exists'') else Inr ()),
      bq_load = (\<lambda>d t df w. if t = ''locked'' then Inl (OtherError ''403 Forbidden'') else Inr ())\<rparr>"

text \<open>
  The example bucket with faults: listing the bucket \<open>down\<close> fails, downloading
  \<open>a/2.txt\<close> is forbidden, the bucket \<open>ro\<close> refuses uploads and no object can be
  made public. A warehouse that rejects every query.
\<close>

definition faulty_world :: world where
  "faulty_world =
     demo_world\<lparr>faults :=
       (\<lambda>c. case c of
          ListBlobs b p \<Rightarrow> if b = ''down'' then Some (OtherError ''503 Service Unavailable'') else None
        | DownloadAsBytes b n \<Rightarrow> if n = ''a/2.txt'' then Some (OtherError ''403 Forbidden'') else None
        | UploadFromFilename b n p \<Rightarrow> if b = ''ro'' then Some (OtherError ''403 Forbidden'') else None
        | MakePublic b n \<Rightarrow> Some (OtherError ''412 Precondition Failed'')
        | Makedirs d \<Rightarrow> None
        | OpenWrite p \<Rightarrow> None)\<rparr>"

definition faulty_client :: bigquery_client where
  "faulty_client = demo_client\<lparr>bq_query := (\<lambda>q ps. Inl (OtherError ''400 Bad Request''))\<rparr>"

text \<open>The example bucket where only the download of the first object fails.\<close>

definition first_fault_world :: world where
  "first_fault_world =
     demo_world\<lparr>faults :=
       (\<lambda>c. if c = DownloadAsBytes ''bkt'' ''a/1.txt''
            then Some (OtherError ''503 Service Unavailable'') else None)\<rparr>"

section \<open>Theorems\<close>

subsection \<open>Deep merge\<close>

lemma merge_loop_h_frame:
  "length h0 \<le> r \<Longrightarrow> r < length h \<Longrightarrow> take (length h0) h = h0 \<Longrightarrow>
   merge_loop_h h r items = (h', res) \<Longrightarrow>
   take (length h0) h' = h0 \<and> length h' = length h"
proof (induction items arbitrary: h)
  case Nil
  then show ?case by simp
next
  case (Cons kv rest)
  obtain key val where kv: "kv = (key, val)" by (cases kv)
  show ?case
  proof (cases "h ! r")
    case (OList xs)
    with Cons.prems kv show ?thesis by simp
  next
    case (ODict result)
    let ?h1 = "h[r := ODict (AList.update key val result)]"
    have step: "take (length h0) ?h1 = h0" "r < length ?h1" "length ?h1 = length h"
      using Cons.prems(1,2,3) by simp_all
    have "merge_loop_h h r (kv # rest) = (h, Some (NameError ''deep_merge''))
        \<or> merge_loop_h h r (kv # rest) = merge_loop_h ?h1 r rest"
      using ODict kv by (simp split: option.splits)
    then show ?thesis
    proof (elim disjE)
      assume "merge_loop_h h r (kv # rest) = (h, Some (NameError ''deep_merge''))"
      with Cons.prems show ?thesis by simp
    next
      assume "merge_loop_h h r (kv # rest) = merge_loop_h ?h1 r rest"
      with Cons.prems(4) have "merge_loop_h ?h1 r rest = (h', res)" by simp
      from Cons.IH[OF Cons.prems(1) step(2) step(1) this] step(3) show ?thesis by simp
    qed
  qed
qed

lemma merge_loop_h_result:
  "r < length h \<Longrightarrow> h ! r = ODict cur \<Longrightarrow> merge_loop_h h r items = (h', None) \<Longrightarrow>
   \<exists>fin. h' ! r = ODict fin \<and> (\<forall>k. k \<notin> fst ` set items \<longrightarrow> map_of fin k = map_of cur k)"
proof (induction items arbitrary: h cur)
  case Nil
  then show ?case by simp
next
  case (Cons kv rest)
  obtain key val where kv: "kv = (key, val)" by (cases kv)
  let ?cur1 = "AList.update key val cur"
  let ?h1 = "h[r := ODict ?cur1]"
  have "merge_loop_h h r (kv # rest) = (h, Some (NameError ''deep_merge''))
      \<or> merge_loop_h h r (kv # rest) = merge_loop_h ?h1 r rest"
    using Cons.prems(2) kv by (simp split: option.splits)
  with Cons.prems(3) have run: "merge_loop_h ?h1 r rest = (h', None)" by auto
  have "r < length ?h1" "?h1 ! r = ODict ?cur1"
    using Cons.prems(1) by simp_all
  from Cons.IH[OF this run] obtain fin where
    fin: "h' ! r = ODict fin" "\<forall>k. k \<notin> fst ` set rest \<longrightarrow> map_of fin k = map_of ?cur1 k"
    by blast
  have "\<forall>k. k \<notin> fst ` set (kv # rest) \<longrightarrow> map_of fin k = map_of cur k"
    using fin(2) kv by (simp add: update_conv')
  with fin(1) show ?case by blast
qed

text \<open>
  The loop on the store is the loop on values, read with the store's test for a
  mapping: it returns when that one returns, with the same entries in the new object,
  and raises when that one raises, with the same exception.
\<close>

lemma isinstance_dict_h_update:
  "r < length h \<Longrightarrow> h ! r = ODict cur \<Longrightarrow>
   isinstance_dict_h (h[r := ODict new]) v = isinstance_dict_h h v"
  by (cases v) (auto simp: isinstance_dict_h_def nth_list_update split: hobj.splits)

lemma merge_loop_h_refines:
  "r < length h \<Longrightarrow> h ! r = ODict cur \<Longrightarrow>
   (case merge_loop (isinstance_dict_h h) cur items of
      Inr fin \<Rightarrow> merge_loop_h h r items = (h[r := ODict fin], None)
    | Inl e \<Rightarrow> snd (merge_loop_h h r items) = Some e)"
proof (induction items arbitrary: h cur)
  case Nil
  then have "h[r := ODict cur] = h" by (metis list_update_id)
  then show ?case by simp
next
  case (Cons kv rest)
  obtain key val where kv: "kv = (key, val)" by (cases kv)
  let ?cur1 = "AList.update key val cur"
  let ?h1 = "h[r := ODict ?cur1]"
  have h1: "r < length ?h1" "?h1 ! r = ODict ?cur1" using Cons.prems by simp_all
  have same: "isinstance_dict_h ?h1 = isinstance_dict_h h"
    using Cons.prems by (simp add: fun_eq_iff isinstance_dict_h_update)
  have IH: "(case merge_loop (isinstance_dict_h h) ?cur1 rest of
      Inr fin \<Rightarrow> merge_loop_h ?h1 r rest = (h[r := ODict fin], None)
    | Inl e \<Rightarrow> snd (merge_loop_h ?h1 r rest) = Some e)"
    using Cons.IH[OF h1] same by (simp split: sum.splits)
  show ?case
  proof (cases "\<exists>old. map_of cur key = Some old \<and> isinstance_dict_h h old \<and> isinstance_dict_h h val")
    case True
    then show ?thesis using Cons.prems kv by auto
  next
    case False
    then have "merge_loop (isinstance_dict_h h) cur (kv # rest) = merge_loop (isinstance_dict_h h) ?cur1 rest"
      "merge_loop_h h r (kv # rest) = merge_loop_h ?h1 r rest"
      using Cons.prems kv by (auto split: option.splits)
    with IH show ?thesis by (simp split: sum.splits)
  qed
qed

lemma deep_merge_h_refines:
  assumes "h ! dict1 = ODict d1" and "h ! dict2 = ODict d2"
  shows "(case merge_loop (isinstance_dict_h (h @ [ODict d1])) d1 d2 of
            Inr fin \<Rightarrow> deep_merge_h h dict1 dict2 = (h @ [ODict fin], Inr (length h))
          | Inl e \<Rightarrow> snd (deep_merge_h h dict1 dict2) = Inl e)"
proof -
  let ?h1 = "h @ [ODict d1]"
  have "length h < length ?h1" "?h1 ! length h = ODict d1" by simp_all
  from merge_loop_h_refines[OF this, of d2] assms show ?thesis
    by (auto simp: deep_merge_h_def Let_def split: sum.splits prod.splits option.splits)
qed

text \<open>
  C1 (evaluation of the code at the failing input). The base \<open>{"a": {"x": 1}}\<close> and
  the override \<open>{"a": {"y": 2}}\<close> share the key \<open>a\<close> with a mapping on both sides: the
  claim makes the merged value of \<open>a\<close> the recursive merge \<open>{"x": 1, "y": 2}\<close>, the code
  raises \<open>NameError\<close> for the unbound name \<open>deep_merge\<close> and returns nothing.
\<close>

theorem priv_deep_merge_nested_raises:
  "priv_deep_merge (VDict [(''a'', VDict [(''x'', VInt 1)])]) (VDict [(''a'', VDict [(''y'', VInt 2)])])
     = Inl (NameError ''deep_merge'')"
  by (simp add: priv_deep_merge_def)

text \<open>
  C8. The merge never mutates the base mapping in place. For every store \<open>h\<close> and every
  two mappings in it, whether the call returns or raises: every object of the store
  before the call (the base, each of its nested sub-mappings, the override) is the same
  after it, and exactly one object has been allocated. When the call returns, the result
  is that new object, a mapping, and under every key that the override does not have it
  holds the very value the base holds, so a nested mapping of the base is shared by
  address and not copied.
\<close>

theorem deep_merge_h_frame:
  assumes "dict1 < length h" and "dict2 < length h"
    and "h ! dict1 = ODict d1" and "h ! dict2 = ODict d2"
    and "deep_merge_h h dict1 dict2 = (h', res)"
  shows "take (length h) h' = h \<and> length h' = Suc (length h) \<and>
         (\<forall>r. res = Inr r \<longrightarrow>
            r = length h \<and>
            (\<exists>fin. h' ! r = ODict fin \<and>
               (\<forall>k. map_of d2 k = None \<longrightarrow> map_of fin k = map_of d1 k)))"
proof -
  let ?r = "length h"
  let ?h1 = "h @ [ODict d1]"
  obtain h2 out where loop: "merge_loop_h ?h1 ?r d2 = (h2, out)"
    by (cases "merge_loop_h ?h1 ?r d2")
  have res: "h' = h2" "res = (case out of None \<Rightarrow> Inr ?r | Some e \<Rightarrow> Inl e)"
    using assms(3,4,5) loop by (auto simp: deep_merge_h_def Let_def split: option.splits)
  have "take (length h) h2 = h \<and> length h2 = length ?h1"
    by (rule merge_loop_h_frame[OF _ _ _ loop]) simp_all
  then have frame: "take (length h) h' = h" "length h' = Suc (length h)"
    using res(1) by simp_all
  have shared: "\<exists>fin. h' ! r = ODict fin \<and> (\<forall>k. map_of d2 k = None \<longrightarrow> map_of fin k = map_of d1 k)"
    if "res = Inr r" for r
  proof -
    from that res(2) have "out = None" "r = ?r" by (auto split: option.splits)
    with loop have run: "merge_loop_h ?h1 ?r d2 = (h2, None)" by simp
    have "?r < length ?h1" "?h1 ! ?r = ODict d1" by simp_all
    from merge_loop_h_result[OF this run] obtain fin where
      "h2 ! ?r = ODict fin" "\<forall>k. k \<notin> fst ` set d2 \<longrightarrow> map_of fin k = map_of d1 k"
      by blast
    then show ?thesis
      using res(1) \<open>r = ?r\<close> by (auto simp: map_of_eq_None_iff)
  qed
  have "r = length h" if "res = Inr r" for r
    using that res(2) by (auto split: option.splits)
  with frame shared show ?thesis by blast
qed

text \<open>
  Witness: the base \<open>{"a": {"x": 1}, "b": 2}\<close> at address 1 (its nested mapping at
  address 0), the override \<open>{"b": 3}\<close> at address 2. The result is the new object at
  address 3, and its \<open>a\<close> is the reference to address 0 that the base holds.
\<close>

theorem deep_merge_h_frame_witness:
  "deep_merge_h
     [ODict [(''x'', HInt 1)], ODict [(''a'', HRef 0), (''b'', HInt 2)], ODict [(''b'', HInt 3)]] 1 2
   = ([ODict [(''x'', HInt 1)], ODict [(''a'', HRef 0), (''b'', HInt 2)], ODict [(''b'', HInt 3)],
       ODict [(''a'', HRef 0), (''b'', HInt 3)]], Inr 3)
   \<and> take 3 [ODict [(''x'', HInt 1)], ODict [(''a'', HRef 0), (''b'', HInt 2)],
       ODict [(''b'', HInt 3)], ODict [(''a'', HRef 0), (''b'', HInt 3)]]
     = [ODict [(''x'', HInt 1)], ODict [(''a'', HRef 0), (''b'', HInt 2)], ODict [(''b'', HInt 3)]]"
proof -
  let ?h = "[ODict [(''x'', HInt 1)], ODict [(''a'', HRef 0), (''b'', HInt 2)], ODict [(''b'', HInt 3)]]"
  let ?h' = "?h @ [ODict [(''a'', HRef 0), (''b'', HInt 3)]]"
  have run: "deep_merge_h ?h 1 2 = (?h', Inr 3)"
    by (simp add: deep_merge_h_def isinstance_dict_h_def)
  have "take (length ?h) ?h' = ?h"
    using deep_merge_h_frame[of 1 ?h 2 "[(''a'', HRef 0), (''b'', HInt 2)]" "[(''b'', HInt 3)]" ?h' "Inr 3"] run
    by simp
  with run show ?thesis by simp
qed

text \<open>
  What the merge gives when it returns: under every key the override has, the
  override's value; under every other key, the base's value.
\<close>

lemma merge_loop_lookup:
  "merge_loop isdict result items = Inr fin \<Longrightarrow>
   map_of fin k = (case map_of (rev items) k of Some v \<Rightarrow> Some v | None \<Rightarrow> map_of result k)"
proof (induction items arbitrary: result)
  case Nil
  then show ?case by simp
next
  case (Cons kv rest)
  obtain key val where kv: "kv = (key, val)" by (cases kv)
  have "merge_loop isdict (AList.update key val result) rest = Inr fin"
    using Cons.prems kv by (simp split: option.splits if_splits)
  from Cons.IH[OF this] show ?case
    using kv by (simp add: update_conv' map_add_def split: option.splits)
qed

subsection \<open>Environment and documents\<close>

text \<open>
  C5. Environment selection obeys strict precedence: the value of the command-line
  option whenever the option is given, whatever the environment variable holds; else
  the value of the variable \<open>ENVIRONMENT\<close> when it is set; else the literal \<open>local\<close>.
\<close>

theorem priv_get_env_precedence:
  "(cli_environment P = FlagGiven x \<longrightarrow> priv_get_env P = Inr x) \<and>
   (cli_environment P = FlagAbsent \<and> environ P ''ENVIRONMENT'' = Some y \<longrightarrow> priv_get_env P = Inr y) \<and>
   (cli_environment P = FlagAbsent \<and> environ P ''ENVIRONMENT'' = None \<longrightarrow> priv_get_env P = Inr ''local'')"
  by (simp add: priv_get_env_def)

text \<open>
  Witness: flag \<open>prod\<close> with variable \<open>staging\<close> gives \<open>prod\<close>; no flag with variable
  \<open>staging\<close> gives \<open>staging\<close>; neither gives \<open>local\<close>.
\<close>

theorem priv_get_env_precedence_witness:
  "priv_get_env (demo_process\<lparr>environ := [''ENVIRONMENT'' \<mapsto> ''staging''], cli_environment := FlagGiven ''prod''\<rparr>) = Inr ''prod'' \<and>
   priv_get_env (demo_process\<lparr>environ := [''ENVIRONMENT'' \<mapsto> ''staging'']\<rparr>) = Inr ''staging'' \<and>
   priv_get_env demo_process = Inr ''local''"
  using priv_get_env_precedence[of "demo_process\<lparr>environ := [''ENVIRONMENT'' \<mapsto> ''staging''], cli_environment := FlagGiven ''prod''\<rparr>" "''prod''"]
    priv_get_env_precedence[of "demo_process\<lparr>environ := [''ENVIRONMENT'' \<mapsto> ''staging'']\<rparr>" _ "''staging''"]
    priv_get_env_precedence[of demo_process]
  by (simp add: demo_process_def)




subsection \<open>HTTP application\<close>

text \<open>
  C9. For every request during which the route handler raises the custom error with
  name \<open>n\<close>, the response has status 418 and the JSON body
  \<open>{"message": "Oops! n did something. There goes a raibow..."}\<close>.
\<close>

theorem unicorn_exception_response:
  "handler request = Inl (Unicorn (UnicornException n)) \<Longrightarrow>
   app handler request =
     \<lparr>status_code = 418,
      content = JObject [(''message'', JString (''Oops! '' @ n @ '' did something. There goes a raibow...''))]\<rparr>"
  by (simp add: app_def unicorn_exception_handler_def)

text \<open>Witness: the name \<open>Widget\<close>.\<close>

theorem unicorn_exception_response_witness:
  "app (\<lambda>request::string. Inl (Unicorn (UnicornException ''Widget''))) ''GET /widgets'' =
     \<lparr>status_code = 418,
      content = JObject [(''message'', JString ''Oops! Widget did something. There goes a raibow...'')]\<rparr>"
  using unicorn_exception_response[of "\<lambda>request::string. Inl (Unicorn (UnicornException ''Widget''))" "''GET /widgets''" "''Widget''"]
  by simp

subsection \<open>Warehouse connector\<close>




subsection \<open>Object-store connector\<close>

text \<open>
  Written files and made directories change nothing that the service calls or the path
  computation read.
\<close>

lemma sdk_download_as_bytes_frame [simp]:
  "sdk_download_as_bytes (W\<lparr>local_files := fs\<rparr>) b n = sdk_download_as_bytes W b n"
  "sdk_download_as_bytes (W\<lparr>local_dirs := ds\<rparr>) b n = sdk_download_as_bytes W b n"
  by (simp_all add: sdk_download_as_bytes_def split: option.splits)

lemma download_blob_frame [simp]:
  "download_blob (W\<lparr>local_files := fs\<rparr>) b n = download_blob W b n"
  "download_blob (W\<lparr>local_dirs := ds\<rparr>) b n = download_blob W b n"
  by (simp_all add: download_blob_def)

lemma local_path_frame [simp]:
  "local_path (W\<lparr>local_files := fs\<rparr>) g l n = local_path W g l n"
  "local_path (W\<lparr>local_dirs := ds\<rparr>) g l n = local_path W g l n"
  by (simp_all add: local_path_def)

text \<open>
  C3. For every successful call of \<open>upload_blob\<close>: the named object now holds the
  bytes read from the local file and no other object has changed; the value returned is
  the blob's public URL, whether \<open>is_public\<close> is set or not; and when \<open>is_public\<close>
  is set the object is among the publicly readable ones in the state the call returns in
  (otherwise that set is as it was). The local files and directories are as they were.
\<close>

theorem upload_blob_returns_url:
  assumes "upload_blob W bucket_name blob_name file_path is_public = (Inr url, W')"
  shows "\<exists>content. read_file W file_path = Inr content \<and>
           map_of (objects W') (bucket_name, blob_name) = Some content \<and>
           (\<forall>k. k \<noteq> (bucket_name, blob_name) \<longrightarrow> map_of (objects W') k = map_of (objects W) k) \<and>
           url = public_url W bucket_name blob_name \<and>
           public_objects W' =
             (if is_public then insert (bucket_name, blob_name) (public_objects W) else public_objects W) \<and>
           local_files W' = local_files W \<and> local_dirs W' = local_dirs W"
  using assms
  by (auto simp: upload_blob_def sdk_upload_from_filename_def sdk_make_public_def update_conv'
      split: sum.splits option.splits if_splits)

text \<open>The paths of the examples, resolved from the working directory \<open>/home/bot\<close>.\<close>

lemma path_values:
  "os_path_dirname ''out/1.txt'' = ''out''"
  "os_path_dirname ''out/2.txt'' = ''out''"
  "os_path_dirname ''out/x'' = ''out''"
  "os_path_dirname ''out/../out/x'' = ''out/../out''"
  "os_path_dirname ''out/sub/3.txt'' = ''out/sub''"
  "walk_start ''/home/bot'' ''out'' = [''home'', ''bot'']"
  "walk_start ''/home/bot'' ''out/sub'' = [''home'', ''bot'']"
  "walk_start ''/home/bot'' ''out/../out'' = [''home'', ''bot'']"
  "split_sep ''out'' = [''out'']"
  "split_sep ''out/sub'' = [''out'', ''sub'']"
  "split_sep ''out/../out'' = [''out'', ''..'', ''out'']"
  "parent_dirs ''/home/bot'' ''up.bin'' = []"
  "parent_dirs ''/home/bot'' ''out/1.txt'' = [[''home'', ''bot'', ''out'']]"
  "parent_dirs ''/home/bot'' ''out/2.txt'' = [[''home'', ''bot'', ''out'']]"
  "parent_dirs ''/home/bot'' ''out/x'' = [[''home'', ''bot'', ''out'']]"
  "parent_dirs ''/home/bot'' ''out/../out/x'' = [[''home'', ''bot'', ''out''], [''home'', ''bot'', ''out'']]"
  "parent_dirs ''/home/bot'' ''out/sub/3.txt'' = [[''home'', ''bot'', ''out''], [''home'', ''bot'', ''out'', ''sub'']]"
  "file_location ''/home/bot'' ''up.bin'' = [''home'', ''bot'', ''up.bin'']"
  "file_location ''/home/bot'' ''out/1.txt'' = [''home'', ''bot'', ''out'', ''1.txt'']"
  "file_location ''/home/bot'' ''out/2.txt'' = [''home'', ''bot'', ''out'', ''2.txt'']"
  "file_location ''/home/bot'' ''out/x'' = [''home'', ''bot'', ''out'', ''x'']"
  "file_location ''/home/bot'' ''out/../out/x'' = [''home'', ''bot'', ''out'', ''x'']"
  "file_location ''/home/bot'' ''out/sub/3.txt'' = [''home'', ''bot'', ''out'', ''sub'', ''3.txt'']"
  "last_name ''up.bin'' = ''up.bin''"
  "last_name ''out/1.txt'' = ''1.txt''"
  "last_name ''out/2.txt'' = ''2.txt''"
  "last_name ''out/x'' = ''x''"
  "last_name ''out/../out/x'' = ''x''"
  "last_name ''out/sub/3.txt'' = ''3.txt''"
  by code_simp+

lemma demo_fields:
  "faults demo_world c = None" "cwd demo_world = ''/home/bot''"
  "local_files demo_world = [[''home'', ''bot'', ''up.bin''] \<mapsto> [9, 9]]"
  "local_dirs demo_world = {[], [''home''], [''home'', ''bot'']}"
  by (simp_all add: demo_world_def)

text \<open>
  Witness: uploading the local file \<open>up.bin\<close> as \<open>new.bin\<close> returns the URL with
  \<open>is_public\<close> false and with \<open>is_public\<close> true, and only the second call makes the
  object public.
\<close>

theorem upload_blob_returns_url_witness:
  "upload_blob demo_world ''bkt'' ''new.bin'' ''up.bin'' False
     = (Inr ''https://storage.googleapis.com/bkt/new.bin'',
        demo_world\<lparr>objects := objects demo_world @ [((''bkt'', ''new.bin''), [9, 9])]\<rparr>) \<and>
   upload_blob demo_world ''bkt'' ''new.bin'' ''up.bin'' True
     = (Inr ''https://storage.googleapis.com/bkt/new.bin'',
        demo_world\<lparr>objects := objects demo_world @ [((''bkt'', ''new.bin''), [9, 9])],
                    public_objects := {(''bkt'', ''new.bin'')}\<rparr>) \<and>
   read_file demo_world ''up.bin'' = Inr [9, 9]"
proof -
  let ?W1 = "demo_world\<lparr>objects := objects demo_world @ [((''bkt'', ''new.bin''), [9, 9])]\<rparr>"
  let ?W2 = "?W1\<lparr>public_objects := {(''bkt'', ''new.bin'')}\<rparr>"
  have r: "read_file demo_world ''up.bin'' = Inr [9, 9]"
    by (simp add: read_file_def enter_parents_def demo_fields path_values endswith_def)
  have a: "upload_blob demo_world ''bkt'' ''new.bin'' ''up.bin'' False
             = (Inr ''https://storage.googleapis.com/bkt/new.bin'', ?W1)"
    by (simp add: upload_blob_def sdk_upload_from_filename_def r) (simp add: demo_world_def)
  have b: "upload_blob demo_world ''bkt'' ''new.bin'' ''up.bin'' True
             = (Inr ''https://storage.googleapis.com/bkt/new.bin'', ?W2)"
    by (simp add: upload_blob_def sdk_upload_from_filename_def r)
       (simp add: sdk_make_public_def demo_world_def)
  from upload_blob_returns_url[OF a] upload_blob_returns_url[OF b] a b r show ?thesis
    by simp
qed

text \<open>
  When a directory is made and when a file is written. The states of the proofs have the
  form \<open>W\<lparr>local_files := fs, local_dirs := ds\<rparr>\<close>: the files and the directories so
  far, over a state \<open>W\<close> that gives everything else.
\<close>

lemma local_state_id: "W\<lparr>local_files := local_files W, local_dirs := local_dirs W\<rparr> = W"
  by simp

lemma makedirs_walk_ok:
  "snd (makedirs_walk d fs cur cs) = None \<longleftrightarrow> (\<forall>k\<in>set (walk_dirs cur cs). fs k = None)"
  by (induction cs arbitrary: cur) (simp_all add: case_prod_unfold)

lemma makedirs_walk_dirs:
  "snd (makedirs_walk d fs cur cs) = None \<Longrightarrow> fst (makedirs_walk d fs cur cs) = walk_dirs cur cs"
  by (induction cs arbitrary: cur) (auto simp: case_prod_unfold split: if_splits)

lemma os_makedirs_ok:
  "os_makedirs (W\<lparr>local_files := fs, local_dirs := ds\<rparr>) d = (Inr u, W') \<longleftrightarrow>
     faults W (Makedirs d) = None \<and> d \<noteq> [] \<and>
     (\<forall>k\<in>set (makedirs_dirs (cwd W) d). fs k = None) \<and>
     W' = W\<lparr>local_files := fs, local_dirs := ds \<union> set (makedirs_dirs (cwd W) d)\<rparr>"
proof (cases "faults W (Makedirs d) = None \<and> d \<noteq> []")
  case False
  then show ?thesis by (auto simp: os_makedirs_def split: option.splits)
next
  case True
  let ?w = "makedirs_walk d fs (walk_start (cwd W) d) (split_sep d)"
  show ?thesis
  proof (cases "snd ?w")
    case None
    with makedirs_walk_ok[of d fs "walk_start (cwd W) d" "split_sep d"]
      makedirs_walk_dirs[of d fs "walk_start (cwd W) d" "split_sep d"] True
    show ?thesis
      by (cases ?w) (auto simp: os_makedirs_def makedirs_dirs_def)
  next
    case (Some e)
    with makedirs_walk_ok[of d fs "walk_start (cwd W) d" "split_sep d"] True
    show ?thesis
      by (cases ?w) (auto simp: os_makedirs_def makedirs_dirs_def)
  qed
qed

lemma enter_parents_None:
  "enter_parents (W\<lparr>local_files := fs, local_dirs := ds\<rparr>) p = None \<longleftrightarrow>
     set (parent_dirs (cwd W) p) \<subseteq> ds"
proof -
  have "find (\<lambda>k. k \<notin> ds) xs = None \<longleftrightarrow> set xs \<subseteq> ds" for xs :: "location list"
    by (auto simp: find_None_iff)
  from this[of "parent_dirs (cwd W) p"] show ?thesis
    by (auto simp: enter_parents_def split: option.splits)
qed

lemma write_file_ok:
  "write_file (W\<lparr>local_files := fs, local_dirs := ds\<rparr>) p c = Inr W' \<longleftrightarrow>
     faults W (OpenWrite p) = None \<and> p \<noteq> [] \<and> \<not> endswith p ''/'' \<and>
     last_name p \<noteq> ''.'' \<and> last_name p \<noteq> ''..'' \<and>
     set (parent_dirs (cwd W) p) \<subseteq> ds \<and> file_location (cwd W) p \<notin> ds \<and>
     W' = W\<lparr>local_files := fs(file_location (cwd W) p \<mapsto> c), local_dirs := ds\<rparr>"
proof (cases "enter_parents (W\<lparr>local_files := fs, local_dirs := ds\<rparr>) p")
  case None
  then have "set (parent_dirs (cwd W) p) \<subseteq> ds" by (simp add: enter_parents_None)
  with None show ?thesis
    by (auto simp: write_file_def split: option.splits)
next
  case (Some e)
  then have "\<not> set (parent_dirs (cwd W) p) \<subseteq> ds"
    using enter_parents_None[where W = W and fs = fs and ds = ds and p = p] by simp
  with Some show ?thesis
    by (auto simp: write_file_def split: option.splits)
qed

text \<open>
  A run of tasks in which every task goes through writes each task's file, in the order
  of the run; a run that completes is such a run.
\<close>

lemma download_and_save_ok:
  "task_ok W ds b (n, p) \<Longrightarrow>
   priv_download_and_save (W\<lparr>local_files := fs, local_dirs := ds\<rparr>) b n p
     = (Inr (), W\<lparr>local_files := task_write W b (n, p) fs, local_dirs := ds\<rparr>)"
proof -
  assume ok: "task_ok W ds b (n, p)"
  then obtain c where c: "download_blob W b n = Inr c" by (auto simp: task_ok_def)
  have "write_file (W\<lparr>local_files := fs, local_dirs := ds\<rparr>) p c
          = Inr (W\<lparr>local_files := fs(file_location (cwd W) p \<mapsto> c), local_dirs := ds\<rparr>)"
    using ok by (simp add: write_file_ok task_ok_def)
  with c show ?thesis
    by (simp add: priv_download_and_save_def download_blob_async_def task_write_def)
qed

lemma download_and_save_success:
  "priv_download_and_save (W\<lparr>local_files := fs, local_dirs := ds\<rparr>) b n p = (Inr u, W') \<Longrightarrow>
   task_ok W ds b (n, p)"
  by (auto simp: priv_download_and_save_def download_blob_async_def task_ok_def write_file_ok
      split: sum.splits)

lemma gather_ok:
  "\<forall>t\<in>set ts. task_ok W ds b t \<Longrightarrow>
   gather (W\<lparr>local_files := fs, local_dirs := ds\<rparr>) b ts
     = (Inr (), W\<lparr>local_files := fold (task_write W b) ts fs, local_dirs := ds\<rparr>)"
proof (induction ts arbitrary: fs)
  case Nil
  then show ?case by simp
next
  case (Cons t ts)
  obtain n p where t: "t = (n, p)" by (cases t)
  from Cons.prems have "task_ok W ds b (n, p)" "\<forall>t\<in>set ts. task_ok W ds b t"
    using t by simp_all
  then show ?case
    using Cons.IH[where fs = "task_write W b (n, p) fs"] t
    by (simp add: download_and_save_ok)
qed

lemma gather_success_ok:
  "gather (W\<lparr>local_files := fs, local_dirs := ds\<rparr>) b ts = (Inr (), W') \<Longrightarrow>
   \<forall>t\<in>set ts. task_ok W ds b t"
proof (induction ts arbitrary: fs)
  case Nil
  then show ?case by simp
next
  case (Cons t ts)
  obtain n p where t: "t = (n, p)" by (cases t)
  obtain r W1 where step: "priv_download_and_save (W\<lparr>local_files := fs, local_dirs := ds\<rparr>) b n p = (r, W1)"
    by (cases "priv_download_and_save (W\<lparr>local_files := fs, local_dirs := ds\<rparr>) b n p")
  with Cons.prems t obtain u where r: "r = Inr u" and rest: "gather W1 b ts = (Inr (), W')"
    by (cases r) auto
  from step r have ok: "task_ok W ds b (n, p)" by (auto dest: download_and_save_success)
  from download_and_save_ok[OF ok, where fs = fs] step
  have "W1 = W\<lparr>local_files := task_write W b (n, p) fs, local_dirs := ds\<rparr>" by simp
  with rest Cons.IH[where fs = "task_write W b (n, p) fs"] ok t show ?case by simp
qed

text \<open>
  A sequential download that completes has run, in listing order, the tasks that the
  asynchronous method prepares. Every task goes through with the directories of the end,
  and no directory it needed was a file at the start: making all the directories first,
  as the asynchronous method does, succeeds too.
\<close>

lemma task_ok_mono:
  "task_ok W ds b t \<Longrightarrow> ds \<subseteq> ds' \<Longrightarrow> file_location (cwd W) (snd t) \<notin> ds' \<Longrightarrow> task_ok W ds' b t"
  by (auto simp: task_ok_def)

lemma task_dirs_Cons:
  "task_dirs W ((n, p) # ts) = set (makedirs_dirs (cwd W) (os_path_dirname p)) \<union> task_dirs W ts"
  by (simp add: task_dirs_def)

lemma download_loop_tasks:
  "download_loop (W\<lparr>local_files := fs, local_dirs := ds\<rparr>) b g l blobs = (Inr (), W') \<Longrightarrow>
   \<exists>tasks.
     map (\<lambda>(n, p). (n, Inr p)) tasks
       = map (\<lambda>n. (n, local_path W g l n)) (filter (\<lambda>n. \<not> endswith n ''/'') blobs) \<and>
     W' = W\<lparr>local_files := fold (task_write W b) tasks fs, local_dirs := ds \<union> task_dirs W tasks\<rparr> \<and>
     (\<forall>t\<in>set tasks. task_ok W (ds \<union> task_dirs W tasks) b t) \<and>
     (\<forall>k. fs k \<noteq> None \<longrightarrow> k \<notin> task_dirs W tasks) \<and>
     (\<forall>t\<in>set tasks. faults W (Makedirs (os_path_dirname (snd t))) = None \<and> os_path_dirname (snd t) \<noteq> [])"
proof (induction blobs arbitrary: fs ds)
  case Nil
  then show ?case by (simp add: task_dirs_def)
next
  case (Cons n blobs)
  show ?case
  proof (cases "endswith n ''/''")
    case True
    with Cons show ?thesis by simp
  next
    case False
    let ?W0 = "W\<lparr>local_files := fs, local_dirs := ds\<rparr>"
    from Cons.prems False obtain p where p: "local_path W g l n = Inr p"
      by (auto split: sum.splits)
    let ?d = "os_path_dirname p"
    let ?D = "set (makedirs_dirs (cwd W) ?d)"
    let ?loc = "file_location (cwd W) p"
    obtain r1 W1 where mk: "os_makedirs ?W0 ?d = (r1, W1)" by (cases "os_makedirs ?W0 ?d")
    with Cons.prems False p obtain u where r1: "r1 = Inr u" by (cases r1) auto
    from mk r1 have mkok: "faults W (Makedirs ?d) = None" "?d \<noteq> []" "\<forall>k\<in>?D. fs k = None"
      and W1: "W1 = W\<lparr>local_files := fs, local_dirs := ds \<union> ?D\<rparr>"
      by (simp_all add: os_makedirs_ok)
    from Cons.prems False p mk r1 W1 obtain c where c: "download_blob W b n = Inr c"
      by (auto split: sum.splits)
    from Cons.prems False p mk r1 W1 c obtain W2 where
      wr: "write_file (W\<lparr>local_files := fs, local_dirs := ds \<union> ?D\<rparr>) p c = Inr W2"
      and rest: "download_loop W2 b g l blobs = (Inr (), W')"
      by (auto split: sum.splits)
    from wr have open_ok: "faults W (OpenWrite p) = None" "p \<noteq> []" "\<not> endswith p ''/''"
        "last_name p \<noteq> ''.''" "last_name p \<noteq> ''..''"
        "set (parent_dirs (cwd W) p) \<subseteq> ds \<union> ?D" "?loc \<notin> ds \<union> ?D"
      and W2: "W2 = W\<lparr>local_files := fs(?loc \<mapsto> c), local_dirs := ds \<union> ?D\<rparr>"
      by (simp_all add: write_file_ok)
    have rest': "download_loop (W\<lparr>local_files := fs(?loc \<mapsto> c), local_dirs := ds \<union> ?D\<rparr>) b g l blobs
                   = (Inr (), W')"
      using rest W2 by simp
    from Cons.IH[OF rest'] obtain tasks where
      paths: "map (\<lambda>(n, p). (n, Inr p)) tasks
                = map (\<lambda>n. (n, local_path W g l n)) (filter (\<lambda>n. \<not> endswith n ''/'') blobs)"
      and W': "W' = W\<lparr>local_files := fold (task_write W b) tasks (fs(?loc \<mapsto> c)),
                       local_dirs := (ds \<union> ?D) \<union> task_dirs W tasks\<rparr>"
      and ok: "\<forall>t\<in>set tasks. task_ok W ((ds \<union> ?D) \<union> task_dirs W tasks) b t"
      and nofile: "\<forall>k. (fs(?loc \<mapsto> c)) k \<noteq> None \<longrightarrow> k \<notin> task_dirs W tasks"
      and mks: "\<forall>t\<in>set tasks. faults W (Makedirs (os_path_dirname (snd t))) = None
                  \<and> os_path_dirname (snd t) \<noteq> []"
      by blast
    let ?tasks = "(n, p) # tasks"
    have td: "task_dirs W ?tasks = ?D \<union> task_dirs W tasks" by (rule task_dirs_Cons)
    have loc_free: "?loc \<notin> task_dirs W tasks" using nofile by simp
    have "task_ok W (ds \<union> ?D) b (n, p)" using c open_ok by (simp add: task_ok_def)
    then have ok_np: "task_ok W (ds \<union> task_dirs W ?tasks) b (n, p)"
      using open_ok(7) loc_free td by (auto intro: task_ok_mono)
    have 1: "map (\<lambda>(n, p). (n, Inr p)) ?tasks
               = map (\<lambda>n. (n, local_path W g l n)) (filter (\<lambda>n. \<not> endswith n ''/'') (n # blobs))"
      using paths p False by simp
    have 2: "W' = W\<lparr>local_files := fold (task_write W b) ?tasks fs,
                     local_dirs := ds \<union> task_dirs W ?tasks\<rparr>"
      using W' c td by (simp add: task_write_def Un_assoc)
    have 3: "\<forall>t\<in>set ?tasks. task_ok W (ds \<union> task_dirs W ?tasks) b t"
      using ok ok_np td by (simp add: Un_assoc)
    have 4: "\<forall>k. fs k \<noteq> None \<longrightarrow> k \<notin> task_dirs W ?tasks"
    proof (intro allI impI)
      fix k assume k: "fs k \<noteq> None"
      then have "k \<notin> ?D" using mkok(3) by auto
      moreover have "k \<notin> task_dirs W tasks"
        using nofile k loc_free by (cases "k = ?loc") auto
      ultimately show "k \<notin> task_dirs W ?tasks" using td by simp
    qed
    have 5: "\<forall>t\<in>set ?tasks. faults W (Makedirs (os_path_dirname (snd t))) = None
               \<and> os_path_dirname (snd t) \<noteq> []"
      using mks mkok by simp
    from 1 2 3 4 5 show ?thesis by blast
  qed
qed

lemma prepare_tasks_ok:
  "map (\<lambda>(n, p). (n, Inr p)) tasks
     = map (\<lambda>n. (n, local_path W g l n)) (filter (\<lambda>n. \<not> endswith n ''/'') blobs) \<Longrightarrow>
   \<forall>k. fs k \<noteq> None \<longrightarrow> k \<notin> task_dirs W tasks \<Longrightarrow>
   \<forall>t\<in>set tasks. faults W (Makedirs (os_path_dirname (snd t))) = None \<and> os_path_dirname (snd t) \<noteq> [] \<Longrightarrow>
   prepare_tasks (W\<lparr>local_files := fs, local_dirs := ds\<rparr>) g l blobs
     = (Inr tasks, W\<lparr>local_files := fs, local_dirs := ds \<union> task_dirs W tasks\<rparr>)"
proof (induction blobs arbitrary: tasks ds)
  case Nil
  then show ?case by (simp add: task_dirs_def)
next
  case (Cons n blobs)
  show ?case
  proof (cases "endswith n ''/''")
    case True
    with Cons show ?thesis by simp
  next
    case False
    with Cons.prems(1) obtain p tasks' where
      tasks: "tasks = (n, p) # tasks'" and p: "local_path W g l n = Inr p"
      and paths: "map (\<lambda>(n, p). (n, Inr p)) tasks'
         = map (\<lambda>n. (n, local_path W g l n)) (filter (\<lambda>n. \<not> endswith n ''/'') blobs)"
      by (cases tasks) auto
    let ?d = "os_path_dirname p"
    let ?D = "set (makedirs_dirs (cwd W) ?d)"
    have td: "task_dirs W tasks = ?D \<union> task_dirs W tasks'" using tasks by (simp add: task_dirs_Cons)
    have mk: "os_makedirs (W\<lparr>local_files := fs, local_dirs := ds\<rparr>) ?d
                = (Inr (), W\<lparr>local_files := fs, local_dirs := ds \<union> ?D\<rparr>)"
      using Cons.prems(2,3) tasks td by (auto simp: os_makedirs_ok)
    have "prepare_tasks (W\<lparr>local_files := fs, local_dirs := ds \<union> ?D\<rparr>) g l blobs
            = (Inr tasks', W\<lparr>local_files := fs, local_dirs := (ds \<union> ?D) \<union> task_dirs W tasks'\<rparr>)"
      using Cons.prems(2,3) tasks td by (intro Cons.IH[OF paths]) auto
    with mk p False tasks td show ?thesis by (simp add: Un_assoc)
  qed
qed

text \<open>Writes to pairwise distinct locations commute.\<close>

lemma fold_task_write_commute:
  assumes "distinct (map (\<lambda>t. file_location (cwd W) (snd t)) ts)" and "mset ts' = mset ts"
  shows "fold (task_write W b) ts' fs = fold (task_write W b) ts fs"
proof -
  have "task_write W b x \<circ> task_write W b y = task_write W b y \<circ> task_write W b x"
    if "x \<in> set ts" "y \<in> set ts" for x y
  proof (cases "x = y")
    case True
    then show ?thesis by simp
  next
    case False
    from assms(1) have "inj_on (\<lambda>t. file_location (cwd W) (snd t)) (set ts)"
      by (simp add: distinct_map)
    with that False have "file_location (cwd W) (snd x) \<noteq> file_location (cwd W) (snd y)"
      by (auto dest: inj_onD)
    then show ?thesis
      by (auto simp: task_write_def fun_eq_iff split: sum.splits)
  qed
  from fold_multiset_equiv[OF this assms(2)[symmetric]] show ?thesis
    by (simp add: fun_eq_iff)
qed

text \<open>The writes of a run, as a list of paths and bytes.\<close>

lemma fold_writes_map_add:
  "fold (\<lambda>(p, c) fs. fs(f p \<mapsto> c)) ws m = m ++ map_of (rev (map (\<lambda>(p, c). (f p, c)) ws))"
  by (induction ws arbitrary: m) (auto simp: map_add_def fun_eq_iff split: option.splits)

lemma fold_task_write_writes:
  "\<forall>t\<in>set ts. \<exists>c. download_blob W b (fst t) = Inr c \<Longrightarrow>
   \<exists>ws. map (\<lambda>(n, p). (Inr p :: error + string, download_blob W b n)) ts
          = map (\<lambda>(p, c). (Inr p, Inr c)) ws \<and>
        fold (task_write W b) ts m = fold (\<lambda>(p, c) fs. fs(file_location (cwd W) p \<mapsto> c)) ws m"
proof (induction ts arbitrary: m)
  case Nil
  then show ?case by simp
next
  case (Cons t ts)
  obtain n p where t: "t = (n, p)" by (cases t)
  from Cons.prems t obtain c where c: "download_blob W b n = Inr c" by auto
  let ?m1 = "m(file_location (cwd W) p \<mapsto> c)"
  from Cons.prems have "\<forall>t\<in>set ts. \<exists>c. download_blob W b (fst t) = Inr c" by simp
  from Cons.IH[OF this, where m = ?m1] obtain ws where
    ws: "map (\<lambda>(n, p). (Inr p :: error + string, download_blob W b n)) ts
           = map (\<lambda>(p, c). (Inr p, Inr c)) ws"
      "fold (task_write W b) ts ?m1 = fold (\<lambda>(p, c) fs. fs(file_location (cwd W) p \<mapsto> c)) ws ?m1"
    by blast
  have "map (\<lambda>(n, p). (Inr p :: error + string, download_blob W b n)) (t # ts)
          = map (\<lambda>(p, c). (Inr p, Inr c)) ((p, c) # ws)"
    using ws(1) t c by simp
  moreover have "fold (task_write W b) (t # ts) m
                   = fold (\<lambda>(p, c) fs. fs(file_location (cwd W) p \<mapsto> c)) ((p, c) # ws) m"
    using ws(2) t c by (simp add: task_write_def)
  ultimately show ?case by blast
qed

lemma read_file_written:
  "task_ok W ds b (n, p) \<Longrightarrow> fs (file_location (cwd W) p) = Some c \<Longrightarrow>
   read_file (W\<lparr>local_files := fs, local_dirs := ds\<rparr>) p = Inr c"
proof -
  assume ok: "task_ok W ds b (n, p)" and st: "fs (file_location (cwd W) p) = Some c"
  from ok have "set (parent_dirs (cwd W) p) \<subseteq> ds" by (simp add: task_ok_def)
  then have "enter_parents (W\<lparr>local_files := fs, local_dirs := ds\<rparr>) p = None"
    by (simp only: enter_parents_None)
  with ok st show ?thesis by (simp add: read_file_def task_ok_def)
qed

text \<open>
  C6. For every listing of the bucket under the prefix, a \<open>download_folder\<close> that
  completes has skipped every blob name ending in \<open>/\<close> and, for each remaining blob
  in listing order, written one local file: \<open>ws\<close> is the list of these writes, the
  path of each being \<open>local_folder\<close> joined with the blob name's path relative to the
  prefix, the bytes being those downloaded for the blob. Each write goes to the location
  its path resolves to: the local files at the end are those of the start with the writes
  applied in order, a location that no write resolves to keeps its file or its absence,
  the directories of the start are still there, and nothing but the local files and
  directories has changed. When the writes resolve to pairwise distinct locations,
  reading any written path afterwards gives the bytes of its blob.
\<close>

theorem download_folder_writes:
  assumes "download_folder W bucket_name gcs_folder local_folder = (Inr (), W')"
  shows "\<exists>blobs ws.
           list_blobs W bucket_name (Some gcs_folder) = Inr blobs \<and>
           map (\<lambda>n. (local_path W gcs_folder local_folder n, download_blob W bucket_name n))
               (filter (\<lambda>n. \<not> endswith n ''/'') blobs)
             = map (\<lambda>(p, c). (Inr p, Inr c)) ws \<and>
           W' = W\<lparr>local_files := fold (\<lambda>(p, c) fs. fs(file_location (cwd W) p \<mapsto> c)) ws (local_files W),
                   local_dirs := local_dirs W'\<rparr> \<and>
           local_dirs W \<subseteq> local_dirs W' \<and>
           (\<forall>k. k \<notin> (\<lambda>(p, c). file_location (cwd W) p) ` set ws \<longrightarrow> local_files W' k = local_files W k) \<and>
           (distinct (map (\<lambda>(p, c). file_location (cwd W) p) ws) \<longrightarrow>
              (\<forall>(p, c)\<in>set ws. read_file W' p = Inr c))"
proof -
  let ?m = "local_files W"
  let ?loc = "file_location (cwd W)"
  from assms obtain blobs where
    blobs: "list_blobs W bucket_name (Some gcs_folder) = Inr blobs"
    and loop: "download_loop W bucket_name gcs_folder local_folder blobs = (Inr (), W')"
    by (auto simp: download_folder_def split: sum.splits)
  let ?kept = "filter (\<lambda>n. \<not> endswith n ''/'') blobs"
  from loop have "download_loop (W\<lparr>local_files := ?m, local_dirs := local_dirs W\<rparr>)
      bucket_name gcs_folder local_folder blobs = (Inr (), W')"
    by simp
  from download_loop_tasks[OF this] obtain tasks where
    tpaths: "map (\<lambda>(n, p). (n, Inr p)) tasks = map (\<lambda>n. (n, local_path W gcs_folder local_folder n)) ?kept"
    and W': "W' = W\<lparr>local_files := fold (task_write W bucket_name) tasks ?m,
                     local_dirs := local_dirs W \<union> task_dirs W tasks\<rparr>"
    and ok: "\<forall>t\<in>set tasks. task_ok W (local_dirs W \<union> task_dirs W tasks) bucket_name t"
    by blast
  from ok have dl: "\<forall>t\<in>set tasks. \<exists>c. download_blob W bucket_name (fst t) = Inr c"
    by (simp add: task_ok_def)
  from fold_task_write_writes[OF dl, where m = ?m] obtain ws where
    ws: "map (\<lambda>(n, p). (Inr p :: error + string, download_blob W bucket_name n)) tasks
           = map (\<lambda>(p, c). (Inr p, Inr c)) ws"
      "fold (task_write W bucket_name) tasks ?m = fold (\<lambda>(p, c) fs. fs(?loc p \<mapsto> c)) ws ?m"
    by blast
  have "map (\<lambda>(n, p). (Inr p :: error + string, download_blob W bucket_name n)) tasks
          = map ((\<lambda>(n, r). (r, download_blob W bucket_name n)) \<circ> (\<lambda>(n, p). (n, Inr p))) tasks"
    by (simp add: comp_def case_prod_unfold)
  also have "\<dots> = map (\<lambda>(n, r). (r, download_blob W bucket_name n))
                     (map (\<lambda>n. (n, local_path W gcs_folder local_folder n)) ?kept)"
    using tpaths by (simp flip: map_map)
  also have "\<dots> = map (\<lambda>n. (local_path W gcs_folder local_folder n, download_blob W bucket_name n)) ?kept"
    by simp
  finally have paths:
    "map (\<lambda>n. (local_path W gcs_folder local_folder n, download_blob W bucket_name n)) ?kept
       = map (\<lambda>(p, c). (Inr p, Inr c)) ws"
    using ws(1) by simp
  have files: "local_files W' = fold (\<lambda>(p, c) fs. fs(?loc p \<mapsto> c)) ws ?m"
    and dirs: "local_dirs W' = local_dirs W \<union> task_dirs W tasks"
    using W' ws(2) by simp_all
  have state: "W' = W\<lparr>local_files := fold (\<lambda>(p, c) fs. fs(?loc p \<mapsto> c)) ws ?m,
                        local_dirs := local_dirs W'\<rparr>"
    using W' ws(2) by simp
  have final: "local_files W' = ?m ++ map_of (rev (map (\<lambda>(p, c). (?loc p, c)) ws))"
    using files by (simp add: fold_writes_map_add)
  have "map_of (rev (map (\<lambda>(p, c). (?loc p, c)) ws)) k = None"
    if "k \<notin> (\<lambda>(p, c). ?loc p) ` set ws" for k
    using that by (force simp: map_of_eq_None_iff)
  then have untouched: "\<forall>k. k \<notin> (\<lambda>(p, c). ?loc p) ` set ws \<longrightarrow> local_files W' k = ?m k"
    using final by (simp add: map_add_def)
  have written: "\<forall>(p, c)\<in>set ws. read_file W' p = Inr c"
    if dist: "distinct (map (\<lambda>(p, c). ?loc p) ws)"
  proof (intro ballI, clarify)
    fix p c assume pc: "(p, c) \<in> set ws"
    have "map fst (rev (map (\<lambda>(p, c). (?loc p, c)) ws)) = rev (map (\<lambda>(p, c). ?loc p) ws)"
      by (simp add: rev_map case_prod_unfold comp_def)
    with dist have "distinct (map fst (rev (map (\<lambda>(p, c). (?loc p, c)) ws)))" by simp
    moreover have "(?loc p, c) \<in> set (rev (map (\<lambda>(p, c). (?loc p, c)) ws))"
      using pc by force
    ultimately have "map_of (rev (map (\<lambda>(p, c). (?loc p, c)) ws)) (?loc p) = Some c"
      by (rule map_of_is_SomeI)
    with final have stored: "local_files W' (?loc p) = Some c" by (simp add: map_add_def)
    from pc have "(Inr p :: error + string, Inr c :: error + bytes) \<in> set (map (\<lambda>(p, c). (Inr p, Inr c)) ws)"
      by force
    with ws(1) have "(Inr p :: error + string, Inr c :: error + bytes)
        \<in> set (map (\<lambda>(n, p). (Inr p :: error + string, download_blob W bucket_name n)) tasks)"
      by simp
    then obtain n where "(n, p) \<in> set tasks" by auto
    with ok have "task_ok W (local_dirs W \<union> task_dirs W tasks) bucket_name (n, p)" by blast
    from read_file_written[OF this, where fs = "local_files W'" and c = c] stored W' dirs
    show "read_file W' p = Inr c" by simp
  qed
  from blobs paths state dirs untouched written show ?thesis by blast
qed

text \<open>
  C7 (amended). When the sequential download completes and the local paths computed for
  the blobs that are not folder markers resolve to pairwise distinct locations, the
  asynchronous download, for every order in which its tasks complete, completes too and
  leaves exactly the state the sequential one leaves: the same local files with the same
  contents, and the same directories.
\<close>

theorem download_folder_async_same_files:
  assumes perm: "\<forall>ts. mset (completion ts) = mset ts"
    and blobs: "list_blobs W bucket_name (Some gcs_folder) = Inr blobs"
    and dist: "distinct (map (\<lambda>n. map_sum id (file_location (cwd W)) (local_path W gcs_folder local_folder n))
                 (filter (\<lambda>n. \<not> endswith n ''/'') blobs))"
    and seq: "download_folder W bucket_name gcs_folder local_folder = (Inr (), W')"
  shows "download_folder_async completion W bucket_name gcs_folder local_folder = (Inr (), W')"
proof -
  let ?m = "local_files W"
  let ?ds = "local_dirs W"
  let ?loc = "file_location (cwd W)"
  let ?kept = "filter (\<lambda>n. \<not> endswith n ''/'') blobs"
  from seq blobs have "download_loop (W\<lparr>local_files := ?m, local_dirs := ?ds\<rparr>)
      bucket_name gcs_folder local_folder blobs = (Inr (), W')"
    by (simp add: download_folder_def)
  from download_loop_tasks[OF this] obtain tasks where
    tpaths: "map (\<lambda>(n, p). (n, Inr p)) tasks = map (\<lambda>n. (n, local_path W gcs_folder local_folder n)) ?kept"
    and W': "W' = W\<lparr>local_files := fold (task_write W bucket_name) tasks ?m,
                     local_dirs := ?ds \<union> task_dirs W tasks\<rparr>"
    and ok: "\<forall>t\<in>set tasks. task_ok W (?ds \<union> task_dirs W tasks) bucket_name t"
    and nofile: "\<forall>k. ?m k \<noteq> None \<longrightarrow> k \<notin> task_dirs W tasks"
    and mks: "\<forall>t\<in>set tasks. faults W (Makedirs (os_path_dirname (snd t))) = None
                \<and> os_path_dirname (snd t) \<noteq> []"
    by blast
  from prepare_tasks_ok[OF tpaths nofile mks, where ds = ?ds]
  have prep: "prepare_tasks W gcs_folder local_folder blobs
                = (Inr tasks, W\<lparr>local_files := ?m, local_dirs := ?ds \<union> task_dirs W tasks\<rparr>)"
    by simp
  have "map (\<lambda>t. Inr (?loc (snd t)) :: error + location) tasks
          = map ((\<lambda>(n, r). map_sum id ?loc r) \<circ> (\<lambda>(n, p). (n, Inr p))) tasks"
    by (simp add: comp_def case_prod_unfold)
  also have "\<dots> = map (\<lambda>(n, r). map_sum id ?loc r)
                     (map (\<lambda>n. (n, local_path W gcs_folder local_folder n)) ?kept)"
    using tpaths by (simp flip: map_map)
  also have "\<dots> = map (\<lambda>n. map_sum id ?loc (local_path W gcs_folder local_folder n)) ?kept"
    by simp
  finally have "distinct (map (\<lambda>t. Inr (?loc (snd t)) :: error + location) tasks)"
    using dist by simp
  then have "distinct (map (Inr :: location \<Rightarrow> error + location) (map (\<lambda>t. ?loc (snd t)) tasks))"
    by (simp add: comp_def)
  then have distinct: "distinct (map (\<lambda>t. ?loc (snd t)) tasks)"
    by (auto simp: distinct_map inj_on_def)
  let ?ts' = "completion tasks"
  from perm have mset: "mset ?ts' = mset tasks" by simp
  then have "set ?ts' = set tasks" by (rule mset_eq_setD)
  with ok have ok': "\<forall>t\<in>set ?ts'. task_ok W (?ds \<union> task_dirs W tasks) bucket_name t" by simp
  have "gather (W\<lparr>local_files := ?m, local_dirs := ?ds \<union> task_dirs W tasks\<rparr>) bucket_name ?ts'
          = (Inr (), W\<lparr>local_files := fold (task_write W bucket_name) ?ts' ?m,
                        local_dirs := ?ds \<union> task_dirs W tasks\<rparr>)"
    by (rule gather_ok[OF ok'])
  also have "fold (task_write W bucket_name) ?ts' ?m = fold (task_write W bucket_name) tasks ?m"
    by (rule fold_task_write_commute[OF distinct mset])
  finally have "gather (W\<lparr>local_files := ?m, local_dirs := ?ds \<union> task_dirs W tasks\<rparr>) bucket_name ?ts'
                  = (Inr (), W')"
    using W' by simp
  with blobs prep show ?thesis
    by (simp add: download_folder_async_def list_blobs_async_def)
qed

text \<open>Evaluation of the examples.\<close>

lemma demo_list: "list_blobs demo_world ''bkt'' (Some ''a'') = Inr [''a/1.txt'', ''a/2.txt'', ''a/sub/'']"
  by (simp add: list_blobs_def sdk_list_blobs_def demo_world_def startswith_def)

lemma demo_paths:
  "local_path demo_world ''a'' ''out'' ''a/1.txt'' = Inr ''out/1.txt''"
  "local_path demo_world ''a'' ''out'' ''a/2.txt'' = Inr ''out/2.txt''"
  by code_simp+

lemma demo_download:
  "download_blob demo_world ''bkt'' ''a/1.txt'' = Inr [1, 2, 3]"
  "download_blob demo_world ''bkt'' ''a/2.txt'' = Inr [4, 5]"
  by (simp_all add: download_blob_def sdk_download_as_bytes_def demo_world_def)

lemma demo_folder:
  "download_folder demo_world ''bkt'' ''a'' ''out'' =
     (Inr (), demo_world\<lparr>local_files :=
        [[''home'', ''bot'', ''up.bin''] \<mapsto> [9, 9],
         [''home'', ''bot'', ''out'', ''1.txt''] \<mapsto> [1, 2, 3],
         [''home'', ''bot'', ''out'', ''2.txt''] \<mapsto> [4, 5]],
       local_dirs := {[], [''home''], [''home'', ''bot''], [''home'', ''bot'', ''out'']}\<rparr>)"
  by (simp add: download_folder_def demo_list demo_paths demo_download demo_fields endswith_def
      os_makedirs_def write_file_def enter_parents_def path_values)

lemma writes_unique:
  "map (\<lambda>(p, c). (Inr p :: error + string, Inr c :: error + bytes)) ws
     = map (\<lambda>(p, c). (Inr p, Inr c)) ws' \<Longrightarrow> ws = ws'"
proof -
  have "inj (\<lambda>(p, c). (Inr p :: error + string, Inr c :: error + bytes))"
    by (auto simp: inj_on_def)
  then show "map (\<lambda>(p, c). (Inr p :: error + string, Inr c :: error + bytes)) ws
     = map (\<lambda>(p, c). (Inr p, Inr c)) ws' \<Longrightarrow> ws = ws'"
    by (simp add: inj_map_eq_map)
qed

lemma nested_fields:
  "faults nested_world c = None" "cwd nested_world = ''/home/bot''"
  "local_files nested_world = Map.empty"
  "local_dirs nested_world = {[], [''home''], [''home'', ''bot'']}"
  by (simp_all add: nested_world_def)

lemma nested_list:
  "list_blobs nested_world ''bkt'' (Some ''a'') = Inr [''a/1.txt'', ''a/sub/'', ''a/sub/3.txt'']"
  by (simp add: list_blobs_def sdk_list_blobs_def nested_world_def startswith_def)

lemma nested_paths:
  "local_path nested_world ''a'' ''out'' ''a/1.txt'' = Inr ''out/1.txt''"
  "local_path nested_world ''a'' ''out'' ''a/sub/3.txt'' = Inr ''out/sub/3.txt''"
  by code_simp+

lemma nested_download:
  "download_blob nested_world ''bkt'' ''a/1.txt'' = Inr [1, 2, 3]"
  "download_blob nested_world ''bkt'' ''a/sub/3.txt'' = Inr [6]"
  by (simp_all add: download_blob_def sdk_download_as_bytes_def nested_world_def)

lemma nested_folder:
  "download_folder nested_world ''bkt'' ''a'' ''out'' =
     (Inr (), nested_world\<lparr>local_files :=
        [[''home'', ''bot'', ''out'', ''1.txt''] \<mapsto> [1, 2, 3],
         [''home'', ''bot'', ''out'', ''sub'', ''3.txt''] \<mapsto> [6]],
       local_dirs := {[], [''home''], [''home'', ''bot''], [''home'', ''bot'', ''out''],
                      [''home'', ''bot'', ''out'', ''sub'']}\<rparr>)"
  by (simp add: download_folder_def nested_list nested_paths nested_download nested_fields
      endswith_def os_makedirs_def write_file_def enter_parents_def path_values)

text \<open>
  Witness for C6: the objects \<open>a/1.txt\<close>, \<open>a/2.txt\<close> and the marker \<open>a/sub/\<close> under
  the prefix \<open>a\<close>, downloaded to \<open>out\<close>. The local files afterwards are the one
  that was there, \<open>out/1.txt\<close> and \<open>out/2.txt\<close>, with the objects' bytes, and the one
  directory made is \<open>out\<close>. With an object below the marker, \<open>a/sub/3.txt\<close>, the
  directory \<open>out/sub\<close> is made too and the file is \<open>out/sub/3.txt\<close>.
\<close>

theorem download_folder_writes_witness:
  "download_folder demo_world ''bkt'' ''a'' ''out'' =
     (Inr (), demo_world\<lparr>local_files :=
        [[''home'', ''bot'', ''up.bin''] \<mapsto> [9, 9],
         [''home'', ''bot'', ''out'', ''1.txt''] \<mapsto> [1, 2, 3],
         [''home'', ''bot'', ''out'', ''2.txt''] \<mapsto> [4, 5]],
       local_dirs := {[], [''home''], [''home'', ''bot''], [''home'', ''bot'', ''out'']}\<rparr>) \<and>
   read_file (snd (download_folder demo_world ''bkt'' ''a'' ''out'')) ''out/1.txt'' = Inr [1, 2, 3] \<and>
   read_file (snd (download_folder demo_world ''bkt'' ''a'' ''out'')) ''out/2.txt'' = Inr [4, 5] \<and>
   download_folder nested_world ''bkt'' ''a'' ''out'' =
     (Inr (), nested_world\<lparr>local_files :=
        [[''home'', ''bot'', ''out'', ''1.txt''] \<mapsto> [1, 2, 3],
         [''home'', ''bot'', ''out'', ''sub'', ''3.txt''] \<mapsto> [6]],
       local_dirs := {[], [''home''], [''home'', ''bot''], [''home'', ''bot'', ''out''],
                      [''home'', ''bot'', ''out'', ''sub'']}\<rparr>) \<and>
   read_file (snd (download_folder nested_world ''bkt'' ''a'' ''out'')) ''out/1.txt'' = Inr [1, 2, 3] \<and>
   read_file (snd (download_folder nested_world ''bkt'' ''a'' ''out'')) ''out/sub/3.txt'' = Inr [6]"
proof -
  let ?D = "snd (download_folder demo_world ''bkt'' ''a'' ''out'')"
  let ?N = "snd (download_folder nested_world ''bkt'' ''a'' ''out'')"
  have demo: "download_folder demo_world ''bkt'' ''a'' ''out'' = (Inr (), ?D)"
    by (simp add: demo_folder)
  from download_folder_writes[OF demo] obtain blobs ws where
    l: "list_blobs demo_world ''bkt'' (Some ''a'') = Inr blobs"
    and p: "map (\<lambda>n. (local_path demo_world ''a'' ''out'' n, download_blob demo_world ''bkt'' n))
                (filter (\<lambda>n. \<not> endswith n ''/'') blobs)
              = map (\<lambda>(p, c). (Inr p, Inr c)) ws"
    and r: "distinct (map (\<lambda>(p, c). file_location (cwd demo_world) p) ws) \<longrightarrow>
              (\<forall>(p, c)\<in>set ws. read_file ?D p = Inr c)"
    by blast
  from l demo_list have "blobs = [''a/1.txt'', ''a/2.txt'', ''a/sub/'']" by simp
  with p have "map (\<lambda>(p, c). (Inr p :: error + string, Inr c :: error + bytes)) ws
      = map (\<lambda>(p, c). (Inr p, Inr c)) [(''out/1.txt'', [1, 2, 3]), (''out/2.txt'', [4, 5])]"
    by (simp add: endswith_def demo_paths demo_download)
  then have "ws = [(''out/1.txt'', [1, 2, 3]), (''out/2.txt'', [4, 5])]"
    by (rule writes_unique)
  with r have dr: "read_file ?D ''out/1.txt'' = Inr [1, 2, 3]" "read_file ?D ''out/2.txt'' = Inr [4, 5]"
    by (simp_all add: demo_fields path_values)
  have nested: "download_folder nested_world ''bkt'' ''a'' ''out'' = (Inr (), ?N)"
    by (simp add: nested_folder)
  from download_folder_writes[OF nested] obtain blobs' ws' where
    l': "list_blobs nested_world ''bkt'' (Some ''a'') = Inr blobs'"
    and p': "map (\<lambda>n. (local_path nested_world ''a'' ''out'' n, download_blob nested_world ''bkt'' n))
                (filter (\<lambda>n. \<not> endswith n ''/'') blobs')
              = map (\<lambda>(p, c). (Inr p, Inr c)) ws'"
    and r': "distinct (map (\<lambda>(p, c). file_location (cwd nested_world) p) ws') \<longrightarrow>
              (\<forall>(p, c)\<in>set ws'. read_file ?N p = Inr c)"
    by blast
  from l' nested_list have "blobs' = [''a/1.txt'', ''a/sub/'', ''a/sub/3.txt'']" by simp
  with p' have "map (\<lambda>(p, c). (Inr p :: error + string, Inr c :: error + bytes)) ws'
      = map (\<lambda>(p, c). (Inr p, Inr c)) [(''out/1.txt'', [1, 2, 3]), (''out/sub/3.txt'', [6])]"
    by (simp add: endswith_def nested_paths nested_download)
  then have "ws' = [(''out/1.txt'', [1, 2, 3]), (''out/sub/3.txt'', [6])]"
    by (rule writes_unique)
  with r' have nr: "read_file ?N ''out/1.txt'' = Inr [1, 2, 3]" "read_file ?N ''out/sub/3.txt'' = Inr [6]"
    by (simp_all add: nested_fields path_values)
  from demo_folder nested_folder dr nr show ?thesis by (intro conjI)
qed

text \<open>
  Witness for the amended C7: the same two buckets, the tasks completing in reverse
  order.
\<close>

theorem download_folder_async_same_files_witness:
  "download_folder_async rev demo_world ''bkt'' ''a'' ''out'' =
     (Inr (), demo_world\<lparr>local_files :=
        [[''home'', ''bot'', ''up.bin''] \<mapsto> [9, 9],
         [''home'', ''bot'', ''out'', ''1.txt''] \<mapsto> [1, 2, 3],
         [''home'', ''bot'', ''out'', ''2.txt''] \<mapsto> [4, 5]],
       local_dirs := {[], [''home''], [''home'', ''bot''], [''home'', ''bot'', ''out'']}\<rparr>) \<and>
   download_folder_async rev nested_world ''bkt'' ''a'' ''out'' =
     (Inr (), nested_world\<lparr>local_files :=
        [[''home'', ''bot'', ''out'', ''1.txt''] \<mapsto> [1, 2, 3],
         [''home'', ''bot'', ''out'', ''sub'', ''3.txt''] \<mapsto> [6]],
       local_dirs := {[], [''home''], [''home'', ''bot''], [''home'', ''bot'', ''out''],
                      [''home'', ''bot'', ''out'', ''sub'']}\<rparr>)"
proof -
  have perm: "\<forall>ts :: (string \<times> string) list. mset (rev ts) = mset ts" by simp
  have dist: "distinct (map (\<lambda>n. map_sum id (file_location (cwd demo_world)) (local_path demo_world ''a'' ''out'' n))
                (filter (\<lambda>n. \<not> endswith n ''/'') [''a/1.txt'', ''a/2.txt'', ''a/sub/'']))"
    by (simp add: endswith_def demo_paths demo_fields path_values)
  have dist': "distinct (map (\<lambda>n. map_sum id (file_location (cwd nested_world)) (local_path nested_world ''a'' ''out'' n))
                (filter (\<lambda>n. \<not> endswith n ''/'') [''a/1.txt'', ''a/sub/'', ''a/sub/3.txt'']))"
    by (simp add: endswith_def nested_paths nested_fields path_values)
  from download_folder_async_same_files[OF perm demo_list dist demo_folder]
    download_folder_async_same_files[OF perm nested_list dist' nested_folder]
  show ?thesis by (intro conjI)
qed

lemma clash_paths:
  "local_path clash_world ''a'' ''out'' ''a//x'' = Inr ''out/x''"
  "local_path clash_world ''a'' ''out'' ''a/x'' = Inr ''out/x''"
  by code_simp+

lemma clash_fields:
  "faults clash_world c = None" "cwd clash_world = ''/home/bot''"
  "local_files clash_world = Map.empty"
  "local_dirs clash_world = {[], [''home''], [''home'', ''bot'']}"
  by (simp_all add: clash_world_def)

lemma clash_list: "list_blobs clash_world ''bkt'' (Some ''a'') = Inr [''a//x'', ''a/x'']"
  by (simp add: list_blobs_def sdk_list_blobs_def clash_world_def startswith_def)

lemma clash_download:
  "download_blob clash_world ''bkt'' ''a//x'' = Inr [1]"
  "download_blob clash_world ''bkt'' ''a/x'' = Inr [2]"
  by (simp_all add: download_blob_def sdk_download_as_bytes_def clash_world_def)

text \<open>
  C7 (counterexample). The bucket holds \<open>a//x\<close> with the byte 1 and \<open>a/x\<close> with the
  byte 2. Both downloads complete. Both names are \<open>x\<close> relative to the prefix \<open>a\<close>,
  so both are written to \<open>out/x\<close>: the sequential download writes in listing order
  and leaves the byte 2 there; the asynchronous one, when the download of \<open>a/x\<close>
  completes first, leaves the byte 1.
\<close>

theorem download_folder_async_order_counterexample:
  "fst (download_folder clash_world ''bkt'' ''a'' ''out'') = Inr () \<and>
   fst (download_folder_async rev clash_world ''bkt'' ''a'' ''out'') = Inr () \<and>
   read_file (snd (download_folder clash_world ''bkt'' ''a'' ''out'')) ''out/x'' = Inr [2] \<and>
   read_file (snd (download_folder_async rev clash_world ''bkt'' ''a'' ''out'')) ''out/x'' = Inr [1]"
  by (simp add: download_folder_def download_folder_async_def list_blobs_async_def clash_list
      clash_paths clash_download clash_fields endswith_def os_makedirs_def download_blob_async_def
      priv_download_and_save_def write_file_def read_file_def enter_parents_def path_values)

text \<open>
  Paths that differ as strings can still be one file. Under the prefix \<open>o\<close> the
  listing holds \<open>o/x\<close> and \<open>out/x\<close>, whose local paths in the folder \<open>out\<close> are
  \<open>out/x\<close> and \<open>out/../out/x\<close>: one location, and again the file that is left
  depends on the order. This is why the amended C7 asks for distinct locations, not for
  distinct path strings.
\<close>

lemma alias_paths:
  "local_path alias_world ''o'' ''out'' ''o/x'' = Inr ''out/x''"
  "local_path alias_world ''o'' ''out'' ''out/x'' = Inr ''out/../out/x''"
  by code_simp+

lemma alias_fields:
  "faults alias_world c = None" "cwd alias_world = ''/home/bot''"
  "local_files alias_world = Map.empty"
  "local_dirs alias_world = {[], [''home''], [''home'', ''bot'']}"
  by (simp_all add: alias_world_def)

lemma alias_list: "list_blobs alias_world ''bkt'' (Some ''o'') = Inr [''o/x'', ''out/x'']"
  by (simp add: list_blobs_def sdk_list_blobs_def alias_world_def startswith_def)

lemma alias_download:
  "download_blob alias_world ''bkt'' ''o/x'' = Inr [1]"
  "download_blob alias_world ''bkt'' ''out/x'' = Inr [2]"
  by (simp_all add: download_blob_def sdk_download_as_bytes_def alias_world_def)

lemma download_folder_async_alias:
  "local_path alias_world ''o'' ''out'' ''o/x'' = Inr ''out/x'' \<and>
   local_path alias_world ''o'' ''out'' ''out/x'' = Inr ''out/../out/x'' \<and>
   file_location (cwd alias_world) ''out/x'' = file_location (cwd alias_world) ''out/../out/x'' \<and>
   fst (download_folder alias_world ''bkt'' ''o'' ''out'') = Inr () \<and>
   fst (download_folder_async rev alias_world ''bkt'' ''o'' ''out'') = Inr () \<and>
   read_file (snd (download_folder alias_world ''bkt'' ''o'' ''out'')) ''out/x'' = Inr [2] \<and>
   read_file (snd (download_folder_async rev alias_world ''bkt'' ''o'' ''out'')) ''out/x'' = Inr [1]"
  by (simp add: download_folder_def download_folder_async_def list_blobs_async_def alias_list
      alias_paths alias_download alias_fields endswith_def os_makedirs_def download_blob_async_def
      priv_download_and_save_def write_file_def read_file_def enter_parents_def path_values)

text \<open>
  Why the amended C7 asks that the sequential download completes: when a download
  fails the two methods do not agree either. The sequential loop stops at the first
  failure, here at the first blob, and has written nothing; a gathered task that
  completes before the failing one has written its file.
\<close>

lemma first_fault_fields:
  "objects first_fault_world = objects demo_world" "cwd first_fault_world = ''/home/bot''"
  "local_files first_fault_world = local_files demo_world"
  "local_dirs first_fault_world = local_dirs demo_world"
  "faults first_fault_world (ListBlobs b pfx) = None"
  "faults first_fault_world (DownloadAsBytes b n) =
     (if b = ''bkt'' \<and> n = ''a/1.txt'' then Some (OtherError ''503 Service Unavailable'') else None)"
  "faults first_fault_world (Makedirs d) = None" "faults first_fault_world (OpenWrite p) = None"
  by (simp_all add: first_fault_world_def demo_world_def)

lemma first_fault_eval:
  "list_blobs first_fault_world ''bkt'' (Some ''a'') = Inr [''a/1.txt'', ''a/2.txt'', ''a/sub/'']"
  "local_path first_fault_world ''a'' ''out'' ''a/1.txt'' = Inr ''out/1.txt''"
  "local_path first_fault_world ''a'' ''out'' ''a/2.txt'' = Inr ''out/2.txt''"
  "download_blob first_fault_world ''bkt'' ''a/1.txt'' = Inl (OtherError ''503 Service Unavailable'')"
  "download_blob first_fault_world ''bkt'' ''a/2.txt'' = Inr [4, 5]"
  using demo_paths
  by (simp_all add: list_blobs_def sdk_list_blobs_def local_path_def download_blob_def
      sdk_download_as_bytes_def first_fault_fields demo_fields demo_world_def startswith_def)

lemma download_folder_async_failure_differs:
  "fst (download_folder first_fault_world ''bkt'' ''a'' ''out'') = Inl (OtherError ''503 Service Unavailable'') \<and>
   read_file (snd (download_folder first_fault_world ''bkt'' ''a'' ''out'')) ''out/2.txt''
     = Inl (FileNotFoundError ''out/2.txt'') \<and>
   fst (download_folder_async rev first_fault_world ''bkt'' ''a'' ''out'') = Inl (OtherError ''503 Service Unavailable'') \<and>
   read_file (snd (download_folder_async rev first_fault_world ''bkt'' ''a'' ''out'')) ''out/2.txt'' = Inr [4, 5]"
  by (simp add: download_folder_def download_folder_async_def list_blobs_async_def first_fault_eval
      first_fault_fields demo_fields endswith_def os_makedirs_def download_blob_async_def
      priv_download_and_save_def write_file_def read_file_def enter_parents_def path_values)

subsection \<open>Error propagation\<close>

lemma download_blob_cases:
  "(sdk_download_as_bytes W b n = Inr c \<longrightarrow> download_blob W b n = Inr c) \<and>
   (sdk_download_as_bytes W b n = Inl (NotFound msg) \<longrightarrow>
      download_blob W b n = Inl (FileNotFoundError (''Blob '' @ n @ '' not found in bucket '' @ b))) \<and>
   (sdk_download_as_bytes W b n = Inl e \<and> (\<forall>msg. e \<noteq> NotFound msg) \<longrightarrow> download_blob W b n = Inl e)"
  by (cases e) (simp_all add: download_blob_def)

lemma upload_blob_errors:
  "(sdk_upload_from_filename W b n path = Inl e \<longrightarrow> upload_blob W b n path pub = (Inl e, W)) \<and>
   (sdk_upload_from_filename W b n path = Inr W1 \<and> sdk_make_public W1 b n = Inl e \<longrightarrow>
      upload_blob W b n path True = (Inl e, W1))"
  by (simp add: upload_blob_def)

lemma table_exists_cases:
  "(table_exists C d t = Inr False \<longleftrightarrow> (\<exists>msg. bq_get_table C d t = Inl (NotFound msg))) \<and>
   (table_exists C d t = Inr True \<longleftrightarrow> bq_get_table C d t = Inr ()) \<and>
   (bq_get_table C d t = Inl e \<and> (\<forall>msg. e \<noteq> NotFound msg) \<longrightarrow> table_exists C d t = Inl e)"
  by (cases e) (auto simp: table_exists_def split: sum.splits error.splits)

text \<open>
  No step of a folder download changes the objects, the faults or the working directory,
  so a blob downloads in the middle of a run as it does at the start.
\<close>

lemma download_blob_cong:
  "objects W' = objects W \<Longrightarrow> faults W' = faults W \<Longrightarrow> download_blob W' b n = download_blob W b n"
  by (simp add: download_blob_def sdk_download_as_bytes_def split: option.splits)

lemma local_path_cong:
  "cwd W' = cwd W \<Longrightarrow> local_path W' g l n = local_path W g l n"
  by (simp add: local_path_def)

lemma os_makedirs_frame:
  "os_makedirs W d = (r, W') \<Longrightarrow> objects W' = objects W \<and> faults W' = faults W \<and> cwd W' = cwd W"
  by (auto simp: os_makedirs_def split: option.splits if_splits prod.splits)

lemma write_file_frame:
  "write_file W p c = Inr W' \<Longrightarrow> objects W' = objects W \<and> faults W' = faults W \<and> cwd W' = cwd W"
  by (auto simp: write_file_def split: option.splits if_splits)

lemma download_and_save_frame:
  "priv_download_and_save W b n p = (r, W') \<Longrightarrow>
   objects W' = objects W \<and> faults W' = faults W \<and> cwd W' = cwd W"
  by (auto simp: priv_download_and_save_def split: sum.splits dest: write_file_frame)

lemma download_loop_frame:
  "download_loop W b g l blobs = (r, W') \<Longrightarrow>
   objects W' = objects W \<and> faults W' = faults W \<and> cwd W' = cwd W"
proof (induction blobs arbitrary: W)
  case Nil
  then show ?case by simp
next
  case (Cons n blobs)
  show ?case
  proof (cases "endswith n ''/''")
    case True
    with Cons show ?thesis by simp
  next
    case False
    show ?thesis
    proof (cases "local_path W g l n")
      case (Inl e)
      with Cons.prems False show ?thesis by simp
    next
      case (Inr p)
      obtain r1 W1 where mk: "os_makedirs W (os_path_dirname p) = (r1, W1)"
        by (cases "os_makedirs W (os_path_dirname p)")
      note W1 = os_makedirs_frame[OF mk]
      show ?thesis
      proof (cases r1)
        case (Inl e)
        with Cons.prems False Inr mk W1 show ?thesis by simp
      next
        case r1: (Inr u)
        show ?thesis
        proof (cases "download_blob W1 b n")
          case (Inl e)
          with Cons.prems False Inr mk r1 W1 show ?thesis by simp
        next
          case c: (Inr c)
          show ?thesis
          proof (cases "write_file W1 p c")
            case (Inl e)
            with Cons.prems False Inr mk r1 c W1 show ?thesis by simp
          next
            case w: (Inr W2)
            note W2 = write_file_frame[OF w]
            from Cons.prems False Inr mk r1 c w
            have "download_loop W2 b g l blobs = (r, W')" by simp
            from Cons.IH[OF this] W2 W1 show ?thesis by simp
          qed
        qed
      qed
    qed
  qed
qed

lemma prepare_tasks_frame:
  "prepare_tasks W g l blobs = (r, W') \<Longrightarrow>
   objects W' = objects W \<and> faults W' = faults W \<and> cwd W' = cwd W"
proof (induction blobs arbitrary: W r W')
  case Nil
  then show ?case by simp
next
  case (Cons n blobs)
  show ?case
  proof (cases "endswith n ''/''")
    case True
    with Cons show ?thesis by simp
  next
    case False
    show ?thesis
    proof (cases "local_path W g l n")
      case (Inl e)
      with Cons.prems False show ?thesis by simp
    next
      case (Inr p)
      obtain r1 W1 where mk: "os_makedirs W (os_path_dirname p) = (r1, W1)"
        by (cases "os_makedirs W (os_path_dirname p)")
      note W1 = os_makedirs_frame[OF mk]
      show ?thesis
      proof (cases r1)
        case (Inl e)
        with Cons.prems False Inr mk W1 show ?thesis by simp
      next
        case r1: (Inr u)
        obtain r2 W2 where rest: "prepare_tasks W1 g l blobs = (r2, W2)"
          by (cases "prepare_tasks W1 g l blobs")
        note W2 = Cons.IH[OF rest]
        from Cons.prems False Inr mk r1 rest have "W' = W2" by (cases r2) auto
        with W2 W1 show ?thesis by simp
      qed
    qed
  qed
qed

lemma prepare_tasks_paths:
  "prepare_tasks W g l blobs = (Inr tasks, W') \<Longrightarrow>
   map (\<lambda>(n, p). (n, Inr p)) tasks
     = map (\<lambda>n. (n, local_path W g l n)) (filter (\<lambda>n. \<not> endswith n ''/'') blobs)"
proof (induction blobs arbitrary: W tasks)
  case Nil
  then show ?case by simp
next
  case (Cons n blobs)
  show ?case
  proof (cases "endswith n ''/''")
    case True
    with Cons show ?thesis by simp
  next
    case False
    from Cons.prems False obtain p u W1 rest where
      p: "local_path W g l n = Inr p"
      and mk: "os_makedirs W (os_path_dirname p) = (Inr u, W1)"
      and rest: "prepare_tasks W1 g l blobs = (Inr rest, W')"
      and tasks: "tasks = (n, p) # rest"
      by (auto split: sum.splits prod.splits)
    from os_makedirs_frame[OF mk] have "local_path W1 g l = local_path W g l"
      using local_path_cong[of W1 W g l] by (simp add: fun_eq_iff)
    with Cons.IH[OF rest] p tasks False show ?thesis by simp
  qed
qed

lemma gather_frame:
  "gather W b ts = (r, W') \<Longrightarrow> objects W' = objects W \<and> faults W' = faults W \<and> cwd W' = cwd W"
proof (induction ts arbitrary: W)
  case Nil
  then show ?case by simp
next
  case (Cons t ts)
  obtain n p where t: "t = (n, p)" by (cases t)
  obtain r1 W1 where step: "priv_download_and_save W b n p = (r1, W1)"
    by (cases "priv_download_and_save W b n p")
  note W1 = download_and_save_frame[OF step]
  show ?case
  proof (cases r1)
    case (Inl e)
    with Cons.prems t step W1 show ?thesis by simp
  next
    case (Inr u)
    with Cons.prems t step have "gather W1 b ts = (r, W')" by simp
    from Cons.IH[OF this] W1 show ?thesis by simp
  qed
qed

text \<open>
  Both folder downloads stop at the first task that fails, with its exception; a folder
  download that completes has downloaded every blob that is not a marker.
\<close>

lemma download_loop_append:
  "download_loop W b g l pre = (Inr (), W1) \<Longrightarrow>
   download_loop W b g l (pre @ rest) = download_loop W1 b g l rest"
  by (induction pre arbitrary: W) (auto split: sum.splits prod.splits)

lemma gather_append:
  "gather W b pre = (Inr (), W1) \<Longrightarrow> gather W b (pre @ rest) = gather W1 b rest"
  by (induction pre arbitrary: W) (auto split: sum.splits prod.splits)

lemma download_folder_download_error:
  assumes blobs: "list_blobs W b (Some g) = Inr (pre @ n # post)"
    and pre: "download_loop W b g l pre = (Inr (), W1)"
    and n: "\<not> endswith n ''/''"
    and p: "local_path W g l n = Inr p"
    and mk: "os_makedirs W1 (os_path_dirname p) = (Inr u, W2)"
    and e: "download_blob W b n = Inl e"
  shows "download_folder W b g l = (Inl e, W2)"
proof -
  note W1 = download_loop_frame[OF pre]
  note W2 = os_makedirs_frame[OF mk]
  from W1 p have p1: "local_path W1 g l n = Inr p"
    using local_path_cong[of W1 W g l n] by simp
  from W1 W2 have "download_blob W2 b n = download_blob W b n"
    by (intro download_blob_cong) simp_all
  with e have e2: "download_blob W2 b n = Inl e" by simp
  have "download_folder W b g l = download_loop W1 b g l (n # post)"
    using blobs download_loop_append[OF pre] by (simp add: download_folder_def)
  also have "\<dots> = (Inl e, W2)" using n p1 mk e2 by simp
  finally show ?thesis .
qed

lemma download_folder_async_download_error:
  assumes blobs: "list_blobs W b (Some g) = Inr blobs"
    and tasks: "prepare_tasks W g l blobs = (Inr tasks, W1)"
    and order: "completion tasks = pre @ (n, p) # post"
    and pre: "gather W1 b pre = (Inr (), W2)"
    and e: "download_blob W b n = Inl e"
  shows "download_folder_async completion W b g l = (Inl e, W2)"
proof -
  note W1 = prepare_tasks_frame[OF tasks]
  note W2 = gather_frame[OF pre]
  from W1 W2 have "download_blob W2 b n = download_blob W b n"
    by (intro download_blob_cong) simp_all
  with e have e2: "download_blob W2 b n = Inl e" by simp
  have "download_folder_async completion W b g l = gather W1 b (pre @ (n, p) # post)"
    using blobs tasks order by (simp add: download_folder_async_def list_blobs_async_def)
  also have "\<dots> = gather W2 b ((n, p) # post)" by (rule gather_append[OF pre])
  also have "\<dots> = (Inl e, W2)"
    using e2 by (simp add: priv_download_and_save_def download_blob_async_def)
  finally show ?thesis .
qed

lemma download_folder_no_error:
  assumes ok: "fst (download_folder W b g l) = Inr ()"
    and blobs: "list_blobs W b (Some g) = Inr blobs"
    and n: "n \<in> set blobs" "\<not> endswith n ''/''"
  shows "\<exists>c. download_blob W b n = Inr c"
proof -
  obtain W' where "download_folder W b g l = (Inr (), W')"
    using ok by (cases "download_folder W b g l") simp
  with blobs have "download_loop (W\<lparr>local_files := local_files W, local_dirs := local_dirs W\<rparr>)
      b g l blobs = (Inr (), W')"
    by (simp add: download_folder_def)
  from download_loop_tasks[OF this] obtain tasks where
    tpaths: "map (\<lambda>(n, p). (n, Inr p)) tasks
               = map (\<lambda>n. (n, local_path W g l n)) (filter (\<lambda>n. \<not> endswith n ''/'') blobs)"
    and tok: "\<forall>t\<in>set tasks. task_ok W (local_dirs W \<union> task_dirs W tasks) b t"
    by blast
  from n have "(n, local_path W g l n)
      \<in> set (map (\<lambda>n. (n, local_path W g l n)) (filter (\<lambda>n. \<not> endswith n ''/'') blobs))"
    by simp
  with tpaths have "(n, local_path W g l n) \<in> set (map (\<lambda>(n, p). (n, Inr p :: error + string)) tasks)"
    by simp
  then obtain p where "(n, p) \<in> set tasks" by auto
  with tok show ?thesis by (auto simp: task_ok_def)
qed

lemma download_folder_async_no_error:
  assumes perm: "\<forall>ts. mset (completion ts) = mset ts"
    and ok: "fst (download_folder_async completion W b g l) = Inr ()"
    and blobs: "list_blobs W b (Some g) = Inr blobs"
    and n: "n \<in> set blobs" "\<not> endswith n ''/''"
  shows "\<exists>c. download_blob W b n = Inr c"
proof -
  obtain W' where run: "download_folder_async completion W b g l = (Inr (), W')"
    using ok by (cases "download_folder_async completion W b g l") simp
  obtain r W1 where prep: "prepare_tasks W g l blobs = (r, W1)"
    by (cases "prepare_tasks W g l blobs")
  with run blobs obtain tasks where r: "r = Inr tasks"
    by (cases r) (auto simp: download_folder_async_def list_blobs_async_def)
  from run blobs prep r have g: "gather W1 b (completion tasks) = (Inr (), W')"
    by (simp add: download_folder_async_def list_blobs_async_def)
  note W1 = prepare_tasks_frame[OF prep]
  from g have "gather (W1\<lparr>local_files := local_files W1, local_dirs := local_dirs W1\<rparr>) b
      (completion tasks) = (Inr (), W')"
    by simp
  then have "\<forall>t\<in>set (completion tasks). task_ok W1 (local_dirs W1) b t"
    by (rule gather_success_ok)
  moreover from perm have "mset (completion tasks) = mset tasks" by simp
  then have "set (completion tasks) = set tasks" by (rule mset_eq_setD)
  ultimately have tok: "\<forall>t\<in>set tasks. task_ok W1 (local_dirs W1) b t" by simp
  from prep r have tpaths: "map (\<lambda>(n, p). (n, Inr p)) tasks
      = map (\<lambda>n. (n, local_path W g l n)) (filter (\<lambda>n. \<not> endswith n ''/'') blobs)"
    by (auto dest: prepare_tasks_paths)
  from n have "(n, local_path W g l n)
      \<in> set (map (\<lambda>n. (n, local_path W g l n)) (filter (\<lambda>n. \<not> endswith n ''/'') blobs))"
    by simp
  with tpaths have "(n, local_path W g l n) \<in> set (map (\<lambda>(n, p). (n, Inr p :: error + string)) tasks)"
    by simp
  then obtain p where "(n, p) \<in> set tasks" by auto
  with tok obtain c where "download_blob W1 b n = Inr c" by (auto simp: task_ok_def)
  moreover from W1 have "download_blob W1 b n = download_blob W b n"
    by (intro download_blob_cong) simp_all
  ultimately show ?thesis by simp
qed

text \<open>
  C4. Every connector operation re-raises, unchanged, the error the external service
  raises, with two exceptions.
  \<^item> Warehouse: \<open>execute_query\<close>, \<open>get_table_data\<close> (through \<open>execute_query\<close>),
    \<open>create_table\<close> and \<open>upload_dataframe\<close> fail with the error of their request.
    \<open>table_exists\<close> returns \<open>False\<close> exactly when the service reports not-found,
    \<open>True\<close> exactly when the table is fetched, and fails with any other error.
  \<^item> Object store: \<open>download_blob\<close> returns the stored bytes of an object that is
    there, raises \<open>FileNotFoundError\<close> with its own message when the service reports
    not-found, and fails with any other error as it is. \<open>list_blobs\<close> and
    \<open>upload_blob\<close> (upload, then making public) fail with the error of the call that
    failed.
  \<^item> \<open>download_folder\<close> fails with the error of the listing. When the rounds for
    the blobs \<open>pre\<close> have gone through and the download of the next blob \<open>n\<close> fails
    with \<open>e\<close> (the error \<open>download_blob\<close> raises, as above), \<open>download_folder\<close>
    fails with \<open>e\<close>, in the state reached then. It swallows no download error: when it
    completes, every listed blob that is not a marker has been downloaded.
  \<^item> Each asynchronous method that wraps a synchronous one gives what that one gives,
    errors included.
  \<^item> \<open>download_folder_async\<close> fails with the error of the listing. When the tasks
    \<open>before\<close> have completed and the download of the next task to complete fails with
    \<open>e\<close>, \<open>download_folder_async\<close> fails with \<open>e\<close>, in the state reached then. It
    swallows no download error either: when it completes, whatever the order of
    completion, every listed blob that is not a marker has been downloaded.
\<close>

theorem connectors_reraise:
  "(bq_query C q (if truthy ps then ps else VList []) = Inl e \<longrightarrow> execute_query C q ps = Inl e) \<and>
   (execute_query C
      (''SELECT * FROM '' @ [CHR 0x60] @ d @ ''.'' @ t @ [CHR 0x60] @
       (case lim of None \<Rightarrow> [] | Some k \<Rightarrow> if k = 0 then [] else '' LIMIT '' @ str_int k)) VNone = Inl e
      \<longrightarrow> get_table_data C d t lim = Inl e) \<and>
   (bq_create_table C d t sch = Inl e \<longrightarrow> create_table C d t sch = Inl e) \<and>
   (bq_load C d t df wd = Inl e \<longrightarrow> upload_dataframe C d t df wd = Inl e) \<and>
   (table_exists C d t = Inr False \<longleftrightarrow> (\<exists>msg. bq_get_table C d t = Inl (NotFound msg))) \<and>
   (table_exists C d t = Inr True \<longleftrightarrow> bq_get_table C d t = Inr ()) \<and>
   (bq_get_table C d t = Inl e \<and> (\<forall>msg. e \<noteq> NotFound msg) \<longrightarrow> table_exists C d t = Inl e) \<and>
   (sdk_download_as_bytes W b n = Inr c \<longrightarrow> download_blob W b n = Inr c) \<and>
   (sdk_download_as_bytes W b n = Inl (NotFound msg) \<longrightarrow>
      download_blob W b n = Inl (FileNotFoundError (''Blob '' @ n @ '' not found in bucket '' @ b))) \<and>
   (sdk_download_as_bytes W b n = Inl e \<and> (\<forall>msg. e \<noteq> NotFound msg) \<longrightarrow> download_blob W b n = Inl e) \<and>
   (sdk_list_blobs W b pfx = Inl e \<longrightarrow> list_blobs W b pfx = Inl e) \<and>
   (sdk_upload_from_filename W b n path = Inl e \<longrightarrow> upload_blob W b n path pub = (Inl e, W)) \<and>
   (sdk_upload_from_filename W b n path = Inr W1 \<and> sdk_make_public W1 b n = Inl e \<longrightarrow>
      upload_blob W b n path True = (Inl e, W1)) \<and>
   (list_blobs W b (Some g) = Inl e \<longrightarrow> download_folder W b g l = (Inl e, W)) \<and>
   (list_blobs W b (Some g) = Inr (pre @ n # post) \<and>
    download_loop W b g l pre = (Inr (), W1) \<and>
    \<not> endswith n ''/'' \<and> local_path W g l n = Inr p \<and>
    os_makedirs W1 (os_path_dirname p) = (Inr u, W2) \<and>
    download_blob W b n = Inl e \<longrightarrow>
      download_folder W b g l = (Inl e, W2)) \<and>
   (fst (download_folder W b g l) = Inr () \<and> list_blobs W b (Some g) = Inr blobs \<and>
    n \<in> set blobs \<and> \<not> endswith n ''/'' \<longrightarrow>
      (\<exists>c. download_blob W b n = Inr c)) \<and>
   execute_query_async C q ps = execute_query C q ps \<and>
   get_table_data_async C d t lim = get_table_data C d t lim \<and>
   table_exists_async C d t = table_exists C d t \<and>
   create_table_async C d t sch = create_table C d t sch \<and>
   upload_dataframe_async C d t df wd = upload_dataframe C d t df wd \<and>
   download_blob_async W b n = download_blob W b n \<and>
   list_blobs_async W b pfx = list_blobs W b pfx \<and>
   (fst (upload_blob W b n path pub) = Inl e \<longrightarrow> fst (upload_blob_async W b n path pub) = Inl e) \<and>
   (list_blobs W b (Some g) = Inl e \<longrightarrow> download_folder_async completion W b g l = (Inl e, W)) \<and>
   (list_blobs W b (Some g) = Inr blobs \<and>
    prepare_tasks W g l blobs = (Inr tasks, W1) \<and>
    completion tasks = before @ (n, p) # after \<and>
    gather W1 b before = (Inr (), W2) \<and>
    download_blob W b n = Inl e \<longrightarrow>
      download_folder_async completion W b g l = (Inl e, W2)) \<and>
   ((\<forall>ts. mset (completion ts) = mset ts) \<and>
    fst (download_folder_async completion W b g l) = Inr () \<and>
    list_blobs W b (Some g) = Inr blobs \<and> n \<in> set blobs \<and> \<not> endswith n ''/'' \<longrightarrow>
      (\<exists>c. download_blob W b n = Inr c))"
proof -
  have bq: "(bq_query C q (if truthy ps then ps else VList []) = Inl e \<longrightarrow> execute_query C q ps = Inl e)"
    "(execute_query C
      (''SELECT * FROM '' @ [CHR 0x60] @ d @ ''.'' @ t @ [CHR 0x60] @
       (case lim of None \<Rightarrow> [] | Some k \<Rightarrow> if k = 0 then [] else '' LIMIT '' @ str_int k)) VNone = Inl e
      \<longrightarrow> get_table_data C d t lim = Inl e)"
    "(bq_create_table C d t sch = Inl e \<longrightarrow> create_table C d t sch = Inl e)"
    "(bq_load C d t df wd = Inl e \<longrightarrow> upload_dataframe C d t df wd = Inl e)"
    by (simp_all add: execute_query_def get_table_data_def create_table_def upload_dataframe_def
        split: option.splits)
  have ls: "sdk_list_blobs W b pfx = Inl e \<longrightarrow> list_blobs W b pfx = Inl e"
    by (simp add: list_blobs_def)
  note te = table_exists_cases[of C d t e]
  note db = download_blob_cases[of W b n c msg e]
  note ub = upload_blob_errors[of W b n path e pub W1]
  have df1: "list_blobs W b (Some g) = Inl e \<longrightarrow> download_folder W b g l = (Inl e, W)"
    by (simp add: download_folder_def)
  have df2: "list_blobs W b (Some g) = Inr (pre @ n # post) \<and>
      download_loop W b g l pre = (Inr (), W1) \<and>
      \<not> endswith n ''/'' \<and> local_path W g l n = Inr p \<and>
      os_makedirs W1 (os_path_dirname p) = (Inr u, W2) \<and>
      download_blob W b n = Inl e \<longrightarrow>
        download_folder W b g l = (Inl e, W2)"
    using download_folder_download_error[of W b g pre n post l W1 p u W2 e] by blast
  have df3: "fst (download_folder W b g l) = Inr () \<and> list_blobs W b (Some g) = Inr blobs \<and>
      n \<in> set blobs \<and> \<not> endswith n ''/'' \<longrightarrow>
        (\<exists>c. download_blob W b n = Inr c)"
    using download_folder_no_error[of W b g l blobs n] by blast
  have ua: "fst (upload_blob W b n path pub) = Inl e \<longrightarrow> fst (upload_blob_async W b n path pub) = Inl e"
    by (simp add: upload_blob_async_def split: prod.splits sum.splits)
  have da1: "list_blobs W b (Some g) = Inl e \<longrightarrow> download_folder_async completion W b g l = (Inl e, W)"
    by (simp add: download_folder_async_def list_blobs_async_def)
  have da2: "list_blobs W b (Some g) = Inr blobs \<and>
      prepare_tasks W g l blobs = (Inr tasks, W1) \<and>
      completion tasks = before @ (n, p) # after \<and>
      gather W1 b before = (Inr (), W2) \<and>
      download_blob W b n = Inl e \<longrightarrow>
        download_folder_async completion W b g l = (Inl e, W2)"
    using download_folder_async_download_error[of W b g blobs l tasks W1 completion before n p after W2 e]
    by blast
  have da3: "(\<forall>ts. mset (completion ts) = mset ts) \<and>
      fst (download_folder_async completion W b g l) = Inr () \<and>
      list_blobs W b (Some g) = Inr blobs \<and> n \<in> set blobs \<and> \<not> endswith n ''/'' \<longrightarrow>
        (\<exists>c. download_blob W b n = Inr c)"
    using download_folder_async_no_error[of completion W b g l blobs n] by blast
  show ?thesis
    by (intro conjI)
      (rule bq(1), rule bq(2), rule bq(3), rule bq(4),
       rule te[THEN conjunct1], rule te[THEN conjunct2, THEN conjunct1],
       rule te[THEN conjunct2, THEN conjunct2],
       rule db[THEN conjunct1], rule db[THEN conjunct2, THEN conjunct1],
       rule db[THEN conjunct2, THEN conjunct2],
       rule ls, rule ub[THEN conjunct1], rule ub[THEN conjunct2],
       rule df1, rule df2, rule df3,
       rule execute_query_async_def, rule get_table_data_async_def, rule table_exists_async_def,
       rule create_table_async_def, rule upload_dataframe_async_def, rule download_blob_async_def,
       rule list_blobs_async_def, rule ua, rule da1, rule da2, rule da3)
qed

text \<open>Evaluation of the example with faults.\<close>

lemma faulty_fields:
  "objects faulty_world = objects demo_world" "cwd faulty_world = ''/home/bot''"
  "local_files faulty_world = [[''home'', ''bot'', ''up.bin''] \<mapsto> [9, 9]]"
  "local_dirs faulty_world = {[], [''home''], [''home'', ''bot'']}"
  "faults faulty_world (ListBlobs b pfx) =
     (if b = ''down'' then Some (OtherError ''503 Service Unavailable'') else None)"
  "faults faulty_world (DownloadAsBytes b n) =
     (if n = ''a/2.txt'' then Some (OtherError ''403 Forbidden'') else None)"
  "faults faulty_world (UploadFromFilename b n p) =
     (if b = ''ro'' then Some (OtherError ''403 Forbidden'') else None)"
  "faults faulty_world (MakePublic b n) = Some (OtherError ''412 Precondition Failed'')"
  "faults faulty_world (Makedirs d) = None" "faults faulty_world (OpenWrite p) = None"
  by (simp_all add: faulty_world_def demo_world_def)

lemma faulty_read: "read_file faulty_world ''up.bin'' = Inr [9, 9]"
  by (simp add: read_file_def enter_parents_def faulty_fields path_values endswith_def)

lemma faulty_sdk:
  "sdk_list_blobs faulty_world ''down'' pfx = Inl (OtherError ''503 Service Unavailable'')"
  "sdk_list_blobs faulty_world ''bkt'' (Some ''a'') = Inr [''a/1.txt'', ''a/2.txt'', ''a/sub/'']"
  "sdk_download_as_bytes faulty_world ''bkt'' ''a/1.txt'' = Inr [1, 2, 3]"
  "sdk_download_as_bytes faulty_world ''bkt'' ''a/2.txt'' = Inl (OtherError ''403 Forbidden'')"
  "sdk_download_as_bytes faulty_world ''bkt'' ''missing'' = Inl (NotFound ''No such object: bkt/missing'')"
  "sdk_upload_from_filename faulty_world ''ro'' ''x'' ''up.bin'' = Inl (OtherError ''403 Forbidden'')"
  "sdk_upload_from_filename faulty_world ''bkt'' ''x'' ''up.bin''
     = Inr (faulty_world\<lparr>objects := objects demo_world @ [((''bkt'', ''x''), [9, 9])]\<rparr>)"
  "sdk_make_public (faulty_world\<lparr>objects := objects demo_world @ [((''bkt'', ''x''), [9, 9])]\<rparr>) ''bkt'' ''x''
     = Inl (OtherError ''412 Precondition Failed'')"
  by (simp_all add: sdk_list_blobs_def sdk_download_as_bytes_def sdk_upload_from_filename_def
      sdk_make_public_def faulty_fields faulty_read demo_world_def startswith_def)

lemma faulty_paths:
  "local_path faulty_world ''a'' ''out'' ''a/1.txt'' = Inr ''out/1.txt''"
  "local_path faulty_world ''a'' ''out'' ''a/2.txt'' = Inr ''out/2.txt''"
  using demo_paths by (simp_all add: local_path_def faulty_fields demo_fields)

lemma faulty_download:
  "download_blob faulty_world ''bkt'' ''a/1.txt'' = Inr [1, 2, 3]"
  "download_blob faulty_world ''bkt'' ''a/2.txt'' = Inl (OtherError ''403 Forbidden'')"
  by (simp_all add: download_blob_def faulty_sdk)

lemma faulty_loop:
  "download_loop faulty_world ''bkt'' ''a'' ''out'' [''a/1.txt''] =
     (Inr (), faulty_world\<lparr>local_files :=
        [[''home'', ''bot'', ''up.bin''] \<mapsto> [9, 9],
         [''home'', ''bot'', ''out'', ''1.txt''] \<mapsto> [1, 2, 3]],
       local_dirs := {[], [''home''], [''home'', ''bot''], [''home'', ''bot'', ''out'']}\<rparr>)"
  "os_makedirs (faulty_world\<lparr>local_files :=
        [[''home'', ''bot'', ''up.bin''] \<mapsto> [9, 9],
         [''home'', ''bot'', ''out'', ''1.txt''] \<mapsto> [1, 2, 3]],
       local_dirs := {[], [''home''], [''home'', ''bot''], [''home'', ''bot'', ''out'']}\<rparr>) ''out'' =
     (Inr (), faulty_world\<lparr>local_files :=
        [[''home'', ''bot'', ''up.bin''] \<mapsto> [9, 9],
         [''home'', ''bot'', ''out'', ''1.txt''] \<mapsto> [1, 2, 3]],
       local_dirs := {[], [''home''], [''home'', ''bot''], [''home'', ''bot'', ''out'']}\<rparr>)"
  by (simp_all add: faulty_paths faulty_download faulty_fields endswith_def os_makedirs_def
      write_file_def enter_parents_def path_values insert_commute)

lemma faulty_tasks:
  "prepare_tasks faulty_world ''a'' ''out'' [''a/1.txt'', ''a/2.txt'', ''a/sub/''] =
     (Inr [(''a/1.txt'', ''out/1.txt''), (''a/2.txt'', ''out/2.txt'')],
      faulty_world\<lparr>local_dirs := {[], [''home''], [''home'', ''bot''], [''home'', ''bot'', ''out'']}\<rparr>)"
  "gather (faulty_world\<lparr>local_dirs := {[], [''home''], [''home'', ''bot''], [''home'', ''bot'', ''out'']}\<rparr>)
      ''bkt'' [(''a/1.txt'', ''out/1.txt'')] =
     (Inr (), faulty_world\<lparr>local_files :=
        [[''home'', ''bot'', ''up.bin''] \<mapsto> [9, 9],
         [''home'', ''bot'', ''out'', ''1.txt''] \<mapsto> [1, 2, 3]],
       local_dirs := {[], [''home''], [''home'', ''bot''], [''home'', ''bot'', ''out'']}\<rparr>)"
  by (simp_all add: faulty_paths faulty_download faulty_fields endswith_def os_makedirs_def
      write_file_def enter_parents_def path_values priv_download_and_save_def download_blob_async_def)

text \<open>
  Witness: each hypothesis holds in the examples, for the synchronous methods and for
  the asynchronous ones. A rejected query, alone and behind \<open>get_table_data\<close>, an
  existing table, a forbidden load; a table that is not found, one that is there, one
  that is forbidden; an object that is there, one that is missing, one that is
  forbidden; a listing, an upload and a publication that fail; a folder whose listing
  fails, and one whose second blob cannot be downloaded: the sequential download and the
  asynchronous one in listing order fail after the first file is written, the
  asynchronous one in reverse order before any is. In the example without faults both
  folder downloads complete, and the blobs have been downloaded.
\<close>

theorem connectors_reraise_witness:
  "execute_query faulty_client ''SELECT 1'' VNone = Inl (OtherError ''400 Bad Request'') \<and>
   get_table_data faulty_client ''ds'' ''users'' (Some 5) = Inl (OtherError ''400 Bad Request'') \<and>
   create_table demo_client ''ds'' ''users'' [] = Inl (OtherError ''409 Already Exists'') \<and>
   upload_dataframe demo_client ''ds'' ''locked'' [] ''WRITE_TRUNCATE'' = Inl (OtherError ''403 Forbidden'') \<and>
   table_exists demo_client ''ds'' ''ghost'' = Inr False \<and>
   table_exists demo_client ''ds'' ''users'' = Inr True \<and>
   table_exists demo_client ''ds'' ''locked'' = Inl (OtherError ''403 Forbidden'') \<and>
   download_blob faulty_world ''bkt'' ''a/1.txt'' = Inr [1, 2, 3] \<and>
   download_blob faulty_world ''bkt'' ''missing''
     = Inl (FileNotFoundError ''Blob missing not found in bucket bkt'') \<and>
   download_blob faulty_world ''bkt'' ''a/2.txt'' = Inl (OtherError ''403 Forbidden'') \<and>
   list_blobs faulty_world ''down'' None = Inl (OtherError ''503 Service Unavailable'') \<and>
   fst (upload_blob faulty_world ''ro'' ''x'' ''up.bin'' False) = Inl (OtherError ''403 Forbidden'') \<and>
   fst (upload_blob faulty_world ''bkt'' ''x'' ''up.bin'' True) = Inl (OtherError ''412 Precondition Failed'') \<and>
   download_folder faulty_world ''down'' ''a'' ''out'' = (Inl (OtherError ''503 Service Unavailable''), faulty_world) \<and>
   download_folder faulty_world ''bkt'' ''a'' ''out'' =
     (Inl (OtherError ''403 Forbidden''),
      faulty_world\<lparr>local_files :=
        [[''home'', ''bot'', ''up.bin''] \<mapsto> [9, 9],
         [''home'', ''bot'', ''out'', ''1.txt''] \<mapsto> [1, 2, 3]],
       local_dirs := {[], [''home''], [''home'', ''bot''], [''home'', ''bot'', ''out'']}\<rparr>) \<and>
   (\<exists>c. download_blob demo_world ''bkt'' ''a/2.txt'' = Inr c) \<and>
   execute_query_async faulty_client ''SELECT 1'' VNone = Inl (OtherError ''400 Bad Request'') \<and>
   get_table_data_async faulty_client ''ds'' ''users'' (Some 5) = Inl (OtherError ''400 Bad Request'') \<and>
   table_exists_async demo_client ''ds'' ''ghost'' = Inr False \<and>
   table_exists_async demo_client ''ds'' ''locked'' = Inl (OtherError ''403 Forbidden'') \<and>
   create_table_async demo_client ''ds'' ''users'' [] = Inl (OtherError ''409 Already Exists'') \<and>
   upload_dataframe_async demo_client ''ds'' ''locked'' [] ''WRITE_TRUNCATE'' = Inl (OtherError ''403 Forbidden'') \<and>
   download_blob_async faulty_world ''bkt'' ''missing''
     = Inl (FileNotFoundError ''Blob missing not found in bucket bkt'') \<and>
   download_blob_async faulty_world ''bkt'' ''a/2.txt'' = Inl (OtherError ''403 Forbidden'') \<and>
   list_blobs_async faulty_world ''down'' None = Inl (OtherError ''503 Service Unavailable'') \<and>
   fst (upload_blob_async faulty_world ''ro'' ''x'' ''up.bin'' False) = Inl (OtherError ''403 Forbidden'') \<and>
   download_folder_async rev faulty_world ''down'' ''a'' ''out'' = (Inl (OtherError ''503 Service Unavailable''), faulty_world) \<and>
   download_folder_async id faulty_world ''bkt'' ''a'' ''out'' =
     (Inl (OtherError ''403 Forbidden''),
      faulty_world\<lparr>local_files :=
        [[''home'', ''bot'', ''up.bin''] \<mapsto> [9, 9],
         [''home'', ''bot'', ''out'', ''1.txt''] \<mapsto> [1, 2, 3]],
       local_dirs := {[], [''home''], [''home'', ''bot''], [''home'', ''bot'', ''out'']}\<rparr>) \<and>
   download_folder_async rev faulty_world ''bkt'' ''a'' ''out'' =
     (Inl (OtherError ''403 Forbidden''),
      faulty_world\<lparr>local_dirs := {[], [''home''], [''home'', ''bot''], [''home'', ''bot'', ''out'']}\<rparr>) \<and>
   (\<exists>c. download_blob demo_world ''bkt'' ''a/1.txt'' = Inr c)"
proof -
  let ?e400 = "OtherError ''400 Bad Request''"
  let ?e403 = "OtherError ''403 Forbidden''"
  let ?e503 = "OtherError ''503 Service Unavailable''"
  let ?W1 = "faulty_world\<lparr>objects := objects demo_world @ [((''bkt'', ''x''), [9, 9])]\<rparr>"
  let ?D = "faulty_world\<lparr>local_dirs := {[], [''home''], [''home'', ''bot''], [''home'', ''bot'', ''out'']}\<rparr>"
  let ?F = "faulty_world\<lparr>local_files :=
        [[''home'', ''bot'', ''up.bin''] \<mapsto> [9, 9],
         [''home'', ''bot'', ''out'', ''1.txt''] \<mapsto> [1, 2, 3]],
       local_dirs := {[], [''home''], [''home'', ''bot''], [''home'', ''bot'', ''out'']}\<rparr>"
  have q: "execute_query faulty_client ''SELECT 1'' VNone = Inl ?e400"
    using connectors_reraise[where C = faulty_client and q = "''SELECT 1''" and ps = VNone and e = ?e400]
    by (simp add: faulty_client_def)
  have gt: "get_table_data faulty_client ''ds'' ''users'' (Some 5) = Inl ?e400"
    using connectors_reraise[where C = faulty_client and d = "''ds''" and t = "''users''"
        and lim = "Some 5" and e = ?e400]
    by (simp add: faulty_client_def execute_query_def)
  have ct: "create_table demo_client ''ds'' ''users'' [] = Inl (OtherError ''409 Already Exists'')"
    using connectors_reraise[where C = demo_client and d = "''ds''" and t = "''users''" and sch = "[]"
        and e = "OtherError ''409 Already Exists''"]
    by (simp add: demo_client_def)
  have ud: "upload_dataframe demo_client ''ds'' ''locked'' [] ''WRITE_TRUNCATE'' = Inl ?e403"
    using connectors_reraise[where C = demo_client and d = "''ds''" and t = "''locked''" and df = "[]"
        and wd = "''WRITE_TRUNCATE''" and e = ?e403]
    by (simp add: demo_client_def)
  have te1: "table_exists demo_client ''ds'' ''ghost'' = Inr False"
    using connectors_reraise[where C = demo_client and d = "''ds''" and t = "''ghost''"]
    by (simp add: demo_client_def)
  have te2: "table_exists demo_client ''ds'' ''users'' = Inr True"
    using connectors_reraise[where C = demo_client and d = "''ds''" and t = "''users''"]
    by (simp add: demo_client_def)
  have te3: "table_exists demo_client ''ds'' ''locked'' = Inl ?e403"
    using connectors_reraise[where C = demo_client and d = "''ds''" and t = "''locked''" and e = ?e403]
    by (simp add: demo_client_def)
  have d1: "download_blob faulty_world ''bkt'' ''a/1.txt'' = Inr [1, 2, 3]"
    using connectors_reraise[where W = faulty_world and b = "''bkt''" and n = "''a/1.txt''" and c = "[1, 2, 3]"]
    by (simp add: faulty_sdk)
  have d2: "download_blob faulty_world ''bkt'' ''missing''
              = Inl (FileNotFoundError ''Blob missing not found in bucket bkt'')"
    using connectors_reraise[where W = faulty_world and b = "''bkt''" and n = "''missing''"
        and msg = "''No such object: bkt/missing''"]
    by (simp add: faulty_sdk)
  have d3: "download_blob faulty_world ''bkt'' ''a/2.txt'' = Inl ?e403"
    using connectors_reraise[where W = faulty_world and b = "''bkt''" and n = "''a/2.txt''" and e = ?e403]
    by (simp add: faulty_sdk)
  have ls: "list_blobs faulty_world ''down'' pfx = Inl ?e503" for pfx
    using connectors_reraise[where W = faulty_world and b = "''down''" and pfx = pfx and e = ?e503]
    by (simp add: faulty_sdk)
  have lb: "list_blobs faulty_world ''bkt'' (Some ''a'') = Inr [''a/1.txt'', ''a/2.txt'', ''a/sub/'']"
    by (simp add: list_blobs_def faulty_sdk)
  have u1: "fst (upload_blob faulty_world ''ro'' ''x'' ''up.bin'' False) = Inl ?e403"
    using connectors_reraise[where W = faulty_world and b = "''ro''" and n = "''x''" and path = "''up.bin''"
        and pub = False and e = ?e403]
    by (simp add: faulty_sdk)
  have u2: "fst (upload_blob faulty_world ''bkt'' ''x'' ''up.bin'' True) = Inl (OtherError ''412 Precondition Failed'')"
    using connectors_reraise[where W = faulty_world and b = "''bkt''" and n = "''x''" and path = "''up.bin''"
        and ?W1.0 = ?W1 and e = "OtherError ''412 Precondition Failed''"]
    by (simp add: faulty_sdk)
  have f1: "download_folder faulty_world ''down'' ''a'' ''out'' = (Inl ?e503, faulty_world)"
    using connectors_reraise[where W = faulty_world and b = "''down''" and g = "''a''" and l = "''out''"
        and e = ?e503] ls
    by simp
  have f2: "download_folder faulty_world ''bkt'' ''a'' ''out'' = (Inl ?e403, ?F)"
    using connectors_reraise[where W = faulty_world and b = "''bkt''" and g = "''a''" and l = "''out''"
        and pre = "[''a/1.txt'']" and n = "''a/2.txt''" and post = "[''a/sub/'']" and ?W1.0 = ?F
        and p = "''out/2.txt''" and u = "()" and ?W2.0 = ?F and e = ?e403]
    by (simp add: lb faulty_loop faulty_paths d3 path_values endswith_def del: download_loop.simps)
  have f3: "\<exists>c. download_blob demo_world ''bkt'' ''a/2.txt'' = Inr c"
    using connectors_reraise[where W = demo_world and b = "''bkt''" and g = "''a''" and l = "''out''"
        and blobs = "[''a/1.txt'', ''a/2.txt'', ''a/sub/'']" and n = "''a/2.txt''"]
    by (simp add: demo_folder demo_list endswith_def)
  have qa: "execute_query_async faulty_client ''SELECT 1'' VNone = Inl ?e400"
    using connectors_reraise[where C = faulty_client and q = "''SELECT 1''" and ps = VNone] q
    by simp
  have gta: "get_table_data_async faulty_client ''ds'' ''users'' (Some 5) = Inl ?e400"
    using connectors_reraise[where C = faulty_client and d = "''ds''" and t = "''users''"
        and lim = "Some 5"] gt
    by simp
  have tea: "table_exists_async demo_client ''ds'' ''ghost'' = Inr False"
    "table_exists_async demo_client ''ds'' ''locked'' = Inl ?e403"
    using connectors_reraise[where C = demo_client and d = "''ds''" and t = "''ghost''"]
      connectors_reraise[where C = demo_client and d = "''ds''" and t = "''locked''"] te1 te3
    by simp_all
  have cta: "create_table_async demo_client ''ds'' ''users'' [] = Inl (OtherError ''409 Already Exists'')"
    using connectors_reraise[where C = demo_client and d = "''ds''" and t = "''users''" and sch = "[]"] ct
    by simp
  have uda: "upload_dataframe_async demo_client ''ds'' ''locked'' [] ''WRITE_TRUNCATE'' = Inl ?e403"
    using connectors_reraise[where C = demo_client and d = "''ds''" and t = "''locked''" and df = "[]"
        and wd = "''WRITE_TRUNCATE''"] ud
    by simp
  have da: "download_blob_async faulty_world ''bkt'' ''missing''
              = Inl (FileNotFoundError ''Blob missing not found in bucket bkt'')"
    "download_blob_async faulty_world ''bkt'' ''a/2.txt'' = Inl ?e403"
    using connectors_reraise[where W = faulty_world and b = "''bkt''" and n = "''missing''"]
      connectors_reraise[where W = faulty_world and b = "''bkt''" and n = "''a/2.txt''"] d2 d3
    by simp_all
  have lsa: "list_blobs_async faulty_world ''down'' None = Inl ?e503"
    using connectors_reraise[where W = faulty_world and b = "''down''" and pfx = None] ls
    by simp
  have ua: "fst (upload_blob_async faulty_world ''ro'' ''x'' ''up.bin'' False) = Inl ?e403"
    using connectors_reraise[where W = faulty_world and b = "''ro''" and n = "''x''" and path = "''up.bin''"
        and pub = False and e = ?e403] u1
    by simp
  have a1: "download_folder_async rev faulty_world ''down'' ''a'' ''out'' = (Inl ?e503, faulty_world)"
    using connectors_reraise[where W = faulty_world and b = "''down''" and g = "''a''" and l = "''out''"
        and e = ?e503 and completion = rev] ls
    by simp
  have a2: "download_folder_async id faulty_world ''bkt'' ''a'' ''out'' = (Inl ?e403, ?F)"
    using connectors_reraise[where W = faulty_world and b = "''bkt''" and g = "''a''" and l = "''out''"
        and blobs = "[''a/1.txt'', ''a/2.txt'', ''a/sub/'']"
        and tasks = "[(''a/1.txt'', ''out/1.txt''), (''a/2.txt'', ''out/2.txt'')]" and ?W1.0 = ?D
        and completion = id and before = "[(''a/1.txt'', ''out/1.txt'')]" and n = "''a/2.txt''"
        and p = "''out/2.txt''" and after = "[]" and ?W2.0 = ?F and e = ?e403]
    by (simp add: lb faulty_tasks d3 del: prepare_tasks.simps gather.simps)
  have a3: "download_folder_async rev faulty_world ''bkt'' ''a'' ''out'' = (Inl ?e403, ?D)"
    using connectors_reraise[where W = faulty_world and b = "''bkt''" and g = "''a''" and l = "''out''"
        and blobs = "[''a/1.txt'', ''a/2.txt'', ''a/sub/'']"
        and tasks = "[(''a/1.txt'', ''out/1.txt''), (''a/2.txt'', ''out/2.txt'')]" and ?W1.0 = ?D
        and completion = rev and before = "[]" and n = "''a/2.txt''"
        and p = "''out/2.txt''" and after = "[(''a/1.txt'', ''out/1.txt'')]" and ?W2.0 = ?D and e = ?e403]
    by (simp add: lb faulty_tasks(1) d3 del: prepare_tasks.simps)
  have perm: "\<forall>ts :: (string \<times> string) list. mset (rev ts) = mset ts" by simp
  have async_demo: "download_folder_async rev demo_world ''bkt'' ''a'' ''out''
      = download_folder demo_world ''bkt'' ''a'' ''out''"
    by (simp add: demo_folder download_folder_async_def list_blobs_async_def demo_list demo_paths
        demo_download demo_fields endswith_def os_makedirs_def write_file_def enter_parents_def
        path_values priv_download_and_save_def download_blob_async_def fun_upd_twist)
  have a4: "\<exists>c. download_blob demo_world ''bkt'' ''a/1.txt'' = Inr c"
    using connectors_reraise[where W = demo_world and b = "''bkt''" and g = "''a''" and l = "''out''"
        and blobs = "[''a/1.txt'', ''a/2.txt'', ''a/sub/'']" and n = "''a/1.txt''" and completion = rev]
      perm
    by (simp add: async_demo demo_folder demo_list endswith_def)
  show ?thesis
    by (intro conjI)
      (rule q, rule gt, rule ct, rule ud, rule te1, rule te2, rule te3, rule d1, rule d2, rule d3,
       rule ls, rule u1, rule u2, rule f1, rule f2, rule f3, rule qa, rule gta, rule tea(1),
       rule tea(2), rule cta, rule uda, rule da(1), rule da(2), rule lsa, rule ua, rule a1,
       rule a2, rule a3, rule a4)
qed

end
